theory Spec2Isabelle
  imports Main "HOL-Library.Word" "HOL-Library.Monad_Syntax" "HOL-Library.While_Combinator"
begin

section \<open>Data model of the relay (package btc)\<close>

text \<open>
  \<^verbatim>\<open>type Digest [32]byte\<close>: a fixed array of 32 bytes, compared as a whole by \<^verbatim>\<open>==\<close>.
  The 32 bytes are kept as one 256-bit word; the zero value of the array is the word 0.
  \<^verbatim>\<open>Height int64\<close> is a 64-bit word, read as two's complement by \<open>sint\<close>, so that
  \<^verbatim>\<open>Height + 1\<close> wraps as it does in Go.

  The struct \<^verbatim>\<open>Header\<close> is a record whose field \<open>Raw\<close> has a type parameter. Where
  the program only looks at the bytes, \<open>Raw\<close> is the list of the slice's bytes
  (\<open>byte list Header\<close>; a nil slice and an empty one are both the empty list, and no
  operation of the program tells them apart: \<^verbatim>\<open>len\<close> is 0 and \<^verbatim>\<open>bytes.Compare\<close> treats nil
  as empty). Where the sharing of storage matters, \<open>Raw\<close> is a slice value that points
  into a store of arrays (\<open>slice Header\<close>, below).
\<close>

type_synonym byte = "8 word"
type_synonym int64 = "64 word"
type_synonym Digest = "256 word"

record 'raw Header =
  Hash :: Digest
  Height :: int64
  PrevHash :: Digest
  MerkleRoot :: Digest
  Raw :: 'raw

text \<open>\<^verbatim>\<open>&btc.Header{}\<close>: every field has its zero value, \<^verbatim>\<open>Raw\<close> is nil.\<close>

definition zero_Header :: "byte list Header" where
  "zero_Header = \<lparr>Hash = 0, Height = 0, PrevHash = 0, MerkleRoot = 0, Raw = []\<rparr>"

text \<open>
  \<^verbatim>\<open>bytes.Compare(a, b)\<close> of the Go standard library: the lexicographic comparison of two
  byte slices, 0 if a == b, -1 if a < b, +1 if a > b; bytes compare unsigned.
\<close>

fun bytes_Compare :: "byte list \<Rightarrow> byte list \<Rightarrow> int" where
  "bytes_Compare [] [] = 0"
| "bytes_Compare [] (y # ys) = - 1"
| "bytes_Compare (x # xs) [] = 1"
| "bytes_Compare (x # xs) (y # ys) =
     (if x < y then - 1 else if y < x then 1 else bytes_Compare xs ys)"

text \<open>
  \<^verbatim>\<open>func headersEqual(first, second *btc.Header) bool\<close> of forwarder.go, on the values the
  two pointers refer to.
\<close>

definition headersEqual :: "byte list Header \<Rightarrow> byte list Header \<Rightarrow> bool" where
  "headersEqual first second \<longleftrightarrow>
     Hash first = Hash second \<and>
     Height first = Height second \<and>
     PrevHash first = PrevHash second \<and>
     MerkleRoot first = MerkleRoot second \<and>
     bytes_Compare (Raw first) (Raw second) = 0"

text \<open>
  \<^verbatim>\<open>func (header *Header) Equals(other *Header) bool\<close> of package btc. Both pointers may be
  nil (\<open>None\<close>). The nil test on \<^verbatim>\<open>other\<close> comes first; after it the fields of both are read,
  and reading a field through a nil receiver panics: the result \<open>None\<close>.
\<close>

definition Equals :: "byte list Header option \<Rightarrow> byte list Header option \<Rightarrow> bool option" where
  "Equals header other =
     (case other of
        None \<Rightarrow> Some False
      | Some b \<Rightarrow>
          (case header of
             None \<Rightarrow> None
           | Some a \<Rightarrow>
               Some (Hash a = Hash b \<and>
                     Height a = Height b \<and>
                     PrevHash a = PrevHash b \<and>
                     MerkleRoot a = MerkleRoot b)))"

text \<open>
  The builtin \<^verbatim>\<open>copy(dst, src)\<close> on the contents of two slices that share no storage:
  the new contents of \<^verbatim>\<open>dst\<close>, whose first min(len(dst), len(src)) bytes come from
  \<^verbatim>\<open>src\<close>.
\<close>

definition copy_bytes :: "byte list \<Rightarrow> byte list \<Rightarrow> byte list" where
  "copy_bytes dst src = (let n = min (length dst) (length src) in take n src @ drop n dst)"

text \<open>
  \<^verbatim>\<open>func copyHeaders(dest, src *btc.Header)\<close> on values: the new contents of \<^verbatim>\<open>*dest\<close>, for
  two pointers to different headers. The three steps are the three statements of the
  source. The same function on a store, where the pointers may be the same, is
  \<open>copyHeaders_heap\<close> below.
\<close>

definition copyHeaders :: "byte list Header \<Rightarrow> byte list Header \<Rightarrow> byte list Header" where
  "copyHeaders dest src =
     (let d1 = src;
          d2 = d1\<lparr>Raw := replicate (length (Raw src)) 0\<rparr>;
          d3 = d2\<lparr>Raw := copy_bytes (Raw d2) (Raw src)\<rparr>
      in d3)"

section \<open>Headers in a store: pointers and slices\<close>

text \<open>
  A slice value is nil or a window \<open>Slice a off n\<close>: \<open>n\<close> bytes from offset \<open>off\<close> of
  the backing array number \<open>a\<close> (the capacity plays no part in this program, which never
  appends). The store holds the \<^verbatim>\<open>Header\<close> structs and the backing arrays, each in a list;
  an address is a position in the list, and an allocation appends, so that the new
  address is one that was never in use. A pointer is nil (\<open>None\<close>) or an address.
  Every operation that dereferences a pointer returns \<open>None\<close> for the panic on nil.
\<close>

datatype slice = SliceNil | Slice nat nat nat

record heap =
  objs :: "slice Header list"
  arrays :: "byte list list"

type_synonym ptr = "nat option"

definition load :: "heap \<Rightarrow> ptr \<Rightarrow> slice Header option" where
  "load h p =
     (case p of
        None \<Rightarrow> None
      | Some i \<Rightarrow> if i < length (objs h) then Some (objs h ! i) else None)"

definition store :: "heap \<Rightarrow> ptr \<Rightarrow> slice Header \<Rightarrow> heap option" where
  "store h p v =
     (case p of
        None \<Rightarrow> None
      | Some i \<Rightarrow> if i < length (objs h) then Some (h\<lparr>objs := (objs h)[i := v]\<rparr>) else None)"

text \<open>\<^verbatim>\<open>len(s)\<close>.\<close>

fun slice_len :: "slice \<Rightarrow> nat" where
  "slice_len SliceNil = 0"
| "slice_len (Slice a off n) = n"

text \<open>The bytes a slice shows, and the slices that lie inside an array of the store.\<close>

fun bytes_of :: "heap \<Rightarrow> slice \<Rightarrow> byte list" where
  "bytes_of h SliceNil = []"
| "bytes_of h (Slice a off n) = take n (drop off (arrays h ! a))"

fun slice_ok :: "heap \<Rightarrow> slice \<Rightarrow> bool" where
  "slice_ok h SliceNil = True"
| "slice_ok h (Slice a off n) = (a < length (arrays h) \<and> off + n \<le> length (arrays h ! a))"

text \<open>\<^verbatim>\<open>make([]byte, n)\<close>: a new array of \<open>n\<close> zero bytes and the slice of all of it.\<close>

definition make_bytes :: "heap \<Rightarrow> nat \<Rightarrow> slice \<times> heap" where
  "make_bytes h n = (Slice (length (arrays h)) 0 n, h\<lparr>arrays := arrays h @ [replicate n 0]\<rparr>)"

text \<open>
  The builtin \<^verbatim>\<open>copy(dst, src)\<close> in the store: the bytes of \<^verbatim>\<open>src\<close> are read first, as many
  as fit are written over the window of \<^verbatim>\<open>dst\<close>.
\<close>

fun go_copy :: "heap \<Rightarrow> slice \<Rightarrow> slice \<Rightarrow> heap" where
  "go_copy h SliceNil src = h"
| "go_copy h (Slice a off n) src =
     (let bs = take n (bytes_of h src); arr = arrays h ! a
      in h\<lparr>arrays := (arrays h)[a := take off arr @ bs @ drop (off + length bs) arr]\<rparr>)"

text \<open>\<^verbatim>\<open>headersEqual\<close> on two pointers into the store.\<close>

definition headersEqual_heap :: "heap \<Rightarrow> ptr \<Rightarrow> ptr \<Rightarrow> bool option" where
  "headersEqual_heap h first second = do {
     a \<leftarrow> load h first;
     b \<leftarrow> load h second;
     Some (Hash a = Hash b \<and>
           Height a = Height b \<and>
           PrevHash a = PrevHash b \<and>
           MerkleRoot a = MerkleRoot b \<and>
           bytes_Compare (bytes_of h (Raw a)) (bytes_of h (Raw b)) = 0)
   }"

text \<open>
  \<^verbatim>\<open>copyHeaders\<close> on two pointers into the store, statement by statement:
  \<^verbatim>\<open>*dest = *src\<close>, then \<^verbatim>\<open>dest.Raw = make([]byte, len(src.Raw))\<close>, then
  \<^verbatim>\<open>copy(dest.Raw, src.Raw)\<close>. Each statement reads \<^verbatim>\<open>src\<close> and \<^verbatim>\<open>dest\<close> again from the
  store as the previous statement left it.
\<close>

definition copyHeaders_heap :: "heap \<Rightarrow> ptr \<Rightarrow> ptr \<Rightarrow> heap option" where
  "copyHeaders_heap h dest src = do {
     v \<leftarrow> load h src;
     h1 \<leftarrow> store h dest v;
     s1 \<leftarrow> load h1 src;
     let (sl, h2) = make_bytes h1 (slice_len (Raw s1));
     d2 \<leftarrow> load h2 dest;
     h3 \<leftarrow> store h2 dest (d2\<lparr>Raw := sl\<rparr>);
     d3 \<leftarrow> load h3 dest;
     s3 \<leftarrow> load h3 src;
     Some (go_copy h3 (Raw d3) (Raw s3))
   }"

text \<open>The header a pointer refers to, with the bytes of its \<open>Raw\<close> read from the store.\<close>

definition header_at :: "heap \<Rightarrow> ptr \<Rightarrow> byte list Header option" where
  "header_at h p =
     map_option
       (\<lambda>v. \<lparr>Hash = Hash v, Height = Height v, PrevHash = PrevHash v,
             MerkleRoot = MerkleRoot v, Raw = bytes_of h (Raw v)\<rparr>)
       (load h p)"

section \<open>The adapters and the search for the common ancestor\<close>

text \<open>
  A Go \<^verbatim>\<open>error\<close> is the message of an adapter's failure (\<open>Err\<close>), or what
  \<^verbatim>\<open>fmt.Errorf\<close> makes of a format string, the integers and the error it is given.
\<close>

datatype error = Err string | Errorf string "int64 list" error

text \<open>
  The interfaces \<^verbatim>\<open>btc.Handle\<close> and \<^verbatim>\<open>chain.Handle\<close> (of the latter only the method
  the forwarder calls in this file). The node and the host chain live outside the
  program: \<open>'s\<close> is their state, each call reads it and returns the next one, so that
  two calls with the same argument can give different answers. A call returns an
  error or a value, never both, and is taken to return.
\<close>

record 's btc_Handle =
  GetHeaderByHeight :: "int64 \<Rightarrow> 's \<Rightarrow> (error + byte list Header) \<times> 's"
  GetHeaderByDigest :: "Digest \<Rightarrow> 's \<Rightarrow> (error + byte list Header) \<times> 's"
  GetBlockCount :: "'s \<Rightarrow> (error + int64) \<times> 's"

record 's chain_Handle =
  GetBestKnownDigest :: "'s \<Rightarrow> (error + Digest) \<times> 's"

text \<open>
  The \<^verbatim>\<open>for !headersEqual(bestHeader, betterOrSameHeader)\<close> loop of \<^verbatim>\<open>findBestBlock\<close>.
  Nothing in the code bounds it: the result is \<open>None\<close> when it runs for ever.
\<close>

partial_function (option) findBestBlock_loop ::
  "'s btc_Handle \<Rightarrow> byte list Header \<Rightarrow> byte list Header \<Rightarrow> 's \<Rightarrow>
     ((error + byte list Header) \<times> 's) option"
where
  "findBestBlock_loop btcChain bestHeader betterOrSameHeader s =
     (if \<not> headersEqual bestHeader betterOrSameHeader then
        (case GetHeaderByDigest btcChain (PrevHash bestHeader) s of
           (Inl e, s1) \<Rightarrow> Some (Inl e, s1)
         | (Inr bestHeader', s1) \<Rightarrow>
             (case GetHeaderByHeight btcChain (Height bestHeader') s1 of
                (Inl e, s2) \<Rightarrow> Some (Inl e, s2)
              | (Inr betterOrSameHeader', s2) \<Rightarrow>
                  findBestBlock_loop btcChain bestHeader' betterOrSameHeader' s2))
      else Some (Inr bestHeader, s))"

declare findBestBlock_loop.simps [code]

text \<open>\<^verbatim>\<open>func (f *Forwarder) findBestBlock() (*btc.Header, error)\<close>.\<close>

definition findBestBlock ::
  "'s chain_Handle \<Rightarrow> 's btc_Handle \<Rightarrow> 's \<Rightarrow> ((error + byte list Header) \<times> 's) option"
where
  "findBestBlock hostChain btcChain s =
     (case GetBestKnownDigest hostChain s of
        (Inl e, s1) \<Rightarrow> Some (Inl e, s1)
      | (Inr currentBestDigest, s1) \<Rightarrow>
          (case GetHeaderByDigest btcChain currentBestDigest s1 of
             (Inl e, s2) \<Rightarrow> Some (Inl e, s2)
           | (Inr bestHeader, s2) \<Rightarrow>
               (case GetHeaderByHeight btcChain (Height bestHeader) s2 of
                  (Inl e, s3) \<Rightarrow> Some (Inl e, s3)
                | (Inr betterOrSameHeader, s3) \<Rightarrow>
                    findBestBlock_loop btcChain bestHeader betterOrSameHeader s3)))"

text \<open>
  The same loop with a bound on its iterations: the body is entered at most \<open>n\<close>
  times, and the result is \<open>None\<close> when the loop asks for one more.
\<close>

fun findBestBlock_loop_n ::
  "nat \<Rightarrow> 's btc_Handle \<Rightarrow> byte list Header \<Rightarrow> byte list Header \<Rightarrow> 's \<Rightarrow>
     ((error + byte list Header) \<times> 's) option"
where
  "findBestBlock_loop_n 0 btcChain bestHeader betterOrSameHeader s =
     (if \<not> headersEqual bestHeader betterOrSameHeader then None
      else Some (Inr bestHeader, s))"
| "findBestBlock_loop_n (Suc n) btcChain bestHeader betterOrSameHeader s =
     (if \<not> headersEqual bestHeader betterOrSameHeader then
        (case GetHeaderByDigest btcChain (PrevHash bestHeader) s of
           (Inl e, s1) \<Rightarrow> Some (Inl e, s1)
         | (Inr bestHeader', s1) \<Rightarrow>
             (case GetHeaderByHeight btcChain (Height bestHeader') s1 of
                (Inl e, s2) \<Rightarrow> Some (Inl e, s2)
              | (Inr betterOrSameHeader', s2) \<Rightarrow>
                  findBestBlock_loop_n n btcChain bestHeader' betterOrSameHeader' s2))
      else Some (Inr bestHeader, s))"

text \<open>
  The ancestor discovery in the words of the specification (section 4.1, steps 1 to 4),
  kept apart from the code for the comparison with \<open>findBestBlock\<close>. A search state
  is the pair of the candidate and the canonical header, or the error of a failed call
  (``any RPC failure is fatal'').
  Step 3: while candidate \<open>\<noteq>\<close> canonical (full-field equality, here the equality of
  the records), step back one block. Step 4: return the surviving candidate.
\<close>

type_synonym 's search = "(error + byte list Header \<times> byte list Header) \<times> 's"

definition spec_differs :: "'s search \<Rightarrow> bool" where
  "spec_differs st =
     (case st of
        (Inl e, s) \<Rightarrow> False
      | (Inr (candidate, canonical), s) \<Rightarrow> candidate \<noteq> canonical)"

definition spec_step_back :: "'s btc_Handle \<Rightarrow> 's search \<Rightarrow> 's search" where
  "spec_step_back btcChain st =
     (case st of
        (Inl e, s) \<Rightarrow> (Inl e, s)
      | (Inr (candidate, canonical), s) \<Rightarrow>
          (case GetHeaderByDigest btcChain (PrevHash candidate) s of
             (Inl e, s1) \<Rightarrow> (Inl e, s1)
           | (Inr candidate', s1) \<Rightarrow>
               (case GetHeaderByHeight btcChain (Height candidate') s1 of
                  (Inl e, s2) \<Rightarrow> (Inl e, s2)
                | (Inr canonical', s2) \<Rightarrow> (Inr (candidate', canonical'), s2))))"

definition spec_survivor :: "'s search \<Rightarrow> (error + byte list Header) \<times> 's" where
  "spec_survivor st =
     (case st of
        (Inl e, s) \<Rightarrow> (Inl e, s)
      | (Inr (candidate, canonical), s) \<Rightarrow> (Inr candidate, s))"

definition spec_ancestor ::
  "'s chain_Handle \<Rightarrow> 's btc_Handle \<Rightarrow> 's \<Rightarrow> ((error + byte list Header) \<times> 's) option"
where
  "spec_ancestor hostChain btcChain s =
     (case GetBestKnownDigest hostChain s of
        (Inl e, s0) \<Rightarrow> Some (Inl e, s0)
      | (Inr hostBestDigest, s0) \<Rightarrow>
          (case GetHeaderByDigest btcChain hostBestDigest s0 of
             (Inl e, s1) \<Rightarrow> Some (Inl e, s1)
           | (Inr candidate, s1) \<Rightarrow>
               (case GetHeaderByHeight btcChain (Height candidate) s1 of
                  (Inl e, s2) \<Rightarrow> Some (Inl e, s2)
                | (Inr canonical, s2) \<Rightarrow>
                    map_option spec_survivor
                      (while_option spec_differs (spec_step_back btcChain)
                         (Inr (candidate, canonical), s2)))))"

section \<open>The forwarder: channels and the two loops\<close>

text \<open>
  A buffered Go channel is the list of the values it holds and its capacity. A send
  proceeds when the buffer has room and blocks otherwise (\<open>None\<close>); a receive is ready
  when the buffer holds a value, and takes the oldest one. The program never closes a
  channel, and closing is not part of this model.
\<close>

record 'a chan =
  buf :: "'a list"
  cap :: nat

definition make_chan :: "nat \<Rightarrow> 'a chan" where
  "make_chan n = \<lparr>buf = [], cap = n\<rparr>"

definition chan_send :: "'a chan \<Rightarrow> 'a \<Rightarrow> 'a chan option" where
  "chan_send c v = (if length (buf c) < cap c then Some (c\<lparr>buf := buf c @ [v]\<rparr>) else None)"

definition chan_ready :: "'a chan \<Rightarrow> bool" where
  "chan_ready c \<longleftrightarrow> buf c \<noteq> []"

definition chan_recv :: "'a chan \<Rightarrow> 'a chan" where
  "chan_recv c = c\<lparr>buf := tl (buf c)\<rparr>"

text \<open>
  The constant \<^verbatim>\<open>headersQueueSize\<close>, the struct \<^verbatim>\<open>Forwarder\<close> (its two handles are the
  arguments of the loops) and the forwarder \<^verbatim>\<open>RunForwarder\<close> makes: a queue of 50
  headers, an error channel and a quit channel of capacity 1.
\<close>

definition headersQueueSize :: nat where
  "headersQueueSize = 50"

record Forwarder =
  processedHeaders :: int
  headersQueue :: "byte list Header chan"
  errChan :: "error chan"
  quit :: "bool chan"

definition RunForwarder :: Forwarder where
  "RunForwarder =
     \<lparr>processedHeaders = 0,
      headersQueue = make_chan headersQueueSize,
      errChan = make_chan 1,
      quit = make_chan 1\<rparr>"

text \<open>
  What a goroutine cannot see from its own state comes with each step as a \<open>tick\<close>:
  whether \<^verbatim>\<open>ctx.Done()\<close> is closed, whether the timer of \<^verbatim>\<open>time.After\<close> has fired, the choice a
  \<^verbatim>\<open>select\<close> makes when several cases are ready (Go picks one of them at random), and
  what the other goroutines and the caller did to the channels since the last step
  (\<open>others\<close>: the pusher taking headers from the queue, the caller reading the error
  channel or sending on the quit channel).

  \<open>go_select\<close> is the \<^verbatim>\<open>select\<close> statement: from the communication cases, each with
  its readiness, the case taken, or \<open>None\<close> when no case is ready (the \<^verbatim>\<open>default\<close>
  branch runs if there is one, otherwise the goroutine waits).
\<close>

datatype select_case = Case_time_After | Case_ctx_Done | Case_quit

record tick =
  ctx_done :: bool
  timer_fired :: bool
  pick :: nat
  others :: "Forwarder \<Rightarrow> Forwarder"

definition go_select :: "nat \<Rightarrow> (select_case \<times> bool) list \<Rightarrow> select_case option" where
  "go_select n cases =
     (let ready = map fst (filter snd cases)
      in if ready = [] then None else Some (ready ! (n mod length ready)))"

text \<open>What a step does that others can see: a header sent to the queue, an error sent to
  the error channel, a call of \<^verbatim>\<open>pushHeadersToHostChain\<close>.\<close>

datatype event =
    Enqueued "byte list Header"
  | Reported error
  | Pushed "byte list Header list"

text \<open>
  \<^verbatim>\<open>func (f *Forwarder) pullingLoop(ctx context.Context)\<close> as a machine. Its control
  points are the places where the goroutine can wait: the call of \<^verbatim>\<open>findBestBlock\<close>
  (\<open>Start\<close>), the \<^verbatim>\<open>select\<close> at the head of the \<^verbatim>\<open>for\<close> loop (\<open>Loop\<close>), the send
  \<^verbatim>\<open>f.headersQueue <- newHeader\<close> (\<open>SendHeader\<close>), the \<^verbatim>\<open>select\<close> of the sleep (\<open>Sleep\<close>),
  a send \<^verbatim>\<open>f.errChan <- ...\<close> that a \<^verbatim>\<open>return\<close> follows (\<open>SendErr\<close>); \<open>Returned\<close> is
  the end of the function. The control points carry the local variables
  \<^verbatim>\<open>latestHeight\<close> and \<^verbatim>\<open>*lastAdded\<close> (and \<^verbatim>\<open>newHeader\<close>). One step runs the code from a
  control point to the next one; a step that finds its send or its \<^verbatim>\<open>select\<close> blocked
  leaves everything as it is. While \<^verbatim>\<open>findBestBlock\<close> does not return the machine stays
  at \<open>Start\<close>.
\<close>

datatype pulling =
    Start
  | Loop int64 "byte list Header"
  | SendHeader "byte list Header" int64 "byte list Header"
  | Sleep int64 "byte list Header"
  | SendErr error
  | Returned

fun pullingLoop_step ::
  "'s chain_Handle \<Rightarrow> 's btc_Handle \<Rightarrow> tick \<Rightarrow> Forwarder \<times> 's \<times> pulling \<Rightarrow>
     (Forwarder \<times> 's \<times> pulling) \<times> event list"
where
  "pullingLoop_step hostChain btcChain t (f, s, Start) =
     (case findBestBlock hostChain btcChain s of
        None \<Rightarrow> ((f, s, Start), [])
      | Some (Inl err, s1) \<Rightarrow>
          ((f, s1, SendErr (Errorf
              ''failure while trying to find best block for pulling loop: [%v]'' [] err)), [])
      | Some (Inr latestHeader, s1) \<Rightarrow>
          ((f, s1, Loop (Height latestHeader + 1) zero_Header), []))"
| "pullingLoop_step hostChain btcChain t (f, s, Loop latestHeight lastAdded) =
     (case go_select (pick t)
             [(Case_ctx_Done, ctx_done t), (Case_quit, chan_ready (quit f))] of
        Some Case_ctx_Done \<Rightarrow> ((f, s, Returned), [])
      | Some Case_quit \<Rightarrow> ((f\<lparr>quit := chan_recv (quit f)\<rparr>, s, Returned), [])
      | _ \<Rightarrow>
          (case GetBlockCount btcChain s of
             (Inl err, s1) \<Rightarrow>
               ((f, s1, SendErr (Errorf ''could not get block count [%v]'' [] err)), [])
           | (Inr chainHeight, s1) \<Rightarrow>
               if sint latestHeight \<le> sint chainHeight then
                 (case GetHeaderByHeight btcChain latestHeight s1 of
                    (Inl err, s2) \<Rightarrow>
                      ((f, s2, SendErr (Errorf ''could not get header by height at %d: [%v]''
                                          [latestHeight] err)), [])
                  | (Inr newHeader, s2) \<Rightarrow>
                      if \<not> headersEqual newHeader lastAdded
                      then ((f, s2, SendHeader newHeader latestHeight lastAdded), [])
                      else ((f, s2, Loop latestHeight lastAdded), []))
               else ((f, s1, Sleep latestHeight lastAdded), [])))"
| "pullingLoop_step hostChain btcChain t (f, s, SendHeader newHeader latestHeight lastAdded) =
     (case chan_send (headersQueue f) newHeader of
        None \<Rightarrow> ((f, s, SendHeader newHeader latestHeight lastAdded), [])
      | Some q \<Rightarrow>
          ((f\<lparr>headersQueue := q\<rparr>, s,
            Loop (latestHeight + 1) (copyHeaders lastAdded newHeader)),
           [Enqueued newHeader]))"
| "pullingLoop_step hostChain btcChain t (f, s, Sleep latestHeight lastAdded) =
     (case go_select (pick t)
             [(Case_time_After, timer_fired t), (Case_ctx_Done, ctx_done t),
              (Case_quit, chan_ready (quit f))] of
        None \<Rightarrow> ((f, s, Sleep latestHeight lastAdded), [])
      | Some Case_quit \<Rightarrow> ((f\<lparr>quit := chan_recv (quit f)\<rparr>, s, Loop latestHeight lastAdded), [])
      | Some _ \<Rightarrow> ((f, s, Loop latestHeight lastAdded), []))"
| "pullingLoop_step hostChain btcChain t (f, s, SendErr err) =
     (case chan_send (errChan f) err of
        None \<Rightarrow> ((f, s, SendErr err), [])
      | Some c \<Rightarrow> ((f\<lparr>errChan := c\<rparr>, s, Returned), [Reported err]))"
| "pullingLoop_step hostChain btcChain t (f, s, Returned) = ((f, s, Returned), [])"

text \<open>A run: before each step the other goroutines act on the channels.\<close>

fun pullingLoop_run ::
  "'s chain_Handle \<Rightarrow> 's btc_Handle \<Rightarrow> tick list \<Rightarrow> Forwarder \<times> 's \<times> pulling \<Rightarrow>
     (Forwarder \<times> 's \<times> pulling) \<times> event list"
where
  "pullingLoop_run hostChain btcChain [] cfg = (cfg, [])"
| "pullingLoop_run hostChain btcChain (t # ts) (f, s, c) =
     (let (cfg1, ev1) = pullingLoop_step hostChain btcChain t (others t f, s, c);
          (cfg2, ev2) = pullingLoop_run hostChain btcChain ts cfg1
      in (cfg2, ev1 @ ev2))"

text \<open>
  \<^verbatim>\<open>func (f *Forwarder) pushingLoop(ctx context.Context)\<close> in the same way. The two
  methods it calls, \<^verbatim>\<open>pullHeadersFromQueue\<close> and \<^verbatim>\<open>pushHeadersToHostChain\<close>, are
  defined in other files of the package; here they are arguments of the machine: the
  first returns the batch and the forwarder as it leaves it, the second an error or nil
  with the forwarder and the host chain as it leaves them.
\<close>

datatype pushing =
    PushLoop
  | PushSleep
  | PushSendErr error
  | PushReturned

fun pushingLoop_step ::
  "(tick \<Rightarrow> Forwarder \<Rightarrow> byte list Header list \<times> Forwarder) \<Rightarrow>
   (byte list Header list \<Rightarrow> Forwarder \<times> 's \<Rightarrow> error option \<times> Forwarder \<times> 's) \<Rightarrow>
   tick \<Rightarrow> Forwarder \<times> 's \<times> pushing \<Rightarrow> (Forwarder \<times> 's \<times> pushing) \<times> event list"
where
  "pushingLoop_step pullHeadersFromQueue pushHeadersToHostChain t (f, s, PushLoop) =
     (case go_select (pick t)
             [(Case_ctx_Done, ctx_done t), (Case_quit, chan_ready (quit f))] of
        Some Case_ctx_Done \<Rightarrow> ((f, s, PushReturned), [])
      | Some Case_quit \<Rightarrow> ((f\<lparr>quit := chan_recv (quit f)\<rparr>, s, PushReturned), [])
      | _ \<Rightarrow>
          (let (headers, f1) = pullHeadersFromQueue t f
           in if length headers = 0 then ((f1, s, PushLoop), [])
              else
                (case pushHeadersToHostChain headers (f1, s) of
                   (Some err, f2, s2) \<Rightarrow>
                     ((f2, s2, PushSendErr (Errorf ''could not push headers: [%v]'' [] err)),
                      [Pushed headers])
                 | (None, f2, s2) \<Rightarrow> ((f2, s2, PushSleep), [Pushed headers]))))"
| "pushingLoop_step pullHeadersFromQueue pushHeadersToHostChain t (f, s, PushSleep) =
     (case go_select (pick t)
             [(Case_time_After, timer_fired t), (Case_ctx_Done, ctx_done t),
              (Case_quit, chan_ready (quit f))] of
        None \<Rightarrow> ((f, s, PushSleep), [])
      | Some Case_quit \<Rightarrow> ((f\<lparr>quit := chan_recv (quit f)\<rparr>, s, PushLoop), [])
      | Some _ \<Rightarrow> ((f, s, PushLoop), []))"
| "pushingLoop_step pullHeadersFromQueue pushHeadersToHostChain t (f, s, PushSendErr err) =
     (case chan_send (errChan f) err of
        None \<Rightarrow> ((f, s, PushSendErr err), [])
      | Some c \<Rightarrow> ((f\<lparr>errChan := c\<rparr>, s, PushReturned), [Reported err]))"
| "pushingLoop_step pullHeadersFromQueue pushHeadersToHostChain t (f, s, PushReturned) =
     ((f, s, PushReturned), [])"

fun pushingLoop_run ::
  "(tick \<Rightarrow> Forwarder \<Rightarrow> byte list Header list \<times> Forwarder) \<Rightarrow>
   (byte list Header list \<Rightarrow> Forwarder \<times> 's \<Rightarrow> error option \<times> Forwarder \<times> 's) \<Rightarrow>
   tick list \<Rightarrow> Forwarder \<times> 's \<times> pushing \<Rightarrow> (Forwarder \<times> 's \<times> pushing) \<times> event list"
where
  "pushingLoop_run pull push [] cfg = (cfg, [])"
| "pushingLoop_run pull push (t # ts) (f, s, c) =
     (let (cfg1, ev1) = pushingLoop_step pull push t (others t f, s, c);
          (cfg2, ev2) = pushingLoop_run pull push ts cfg1
      in (cfg2, ev1 @ ev2))"

text \<open>The headers a run has sent to the queue, in order, and the \<^verbatim>\<open>latestHeight\<close> of a
  control point.\<close>

fun enqueued :: "event list \<Rightarrow> byte list Header list" where
  "enqueued [] = []"
| "enqueued (Enqueued h # evs) = h # enqueued evs"
| "enqueued (_ # evs) = enqueued evs"

fun latestHeight_of :: "pulling \<Rightarrow> int64 option" where
  "latestHeight_of (Loop latestHeight lastAdded) = Some latestHeight"
| "latestHeight_of (SendHeader newHeader latestHeight lastAdded) = Some latestHeight"
| "latestHeight_of (Sleep latestHeight lastAdded) = Some latestHeight"
| "latestHeight_of c = None"

section \<open>Small nodes and runs for the examples\<close>

text \<open>
  A chain with the genesis block \<open>g0\<close>, the blocks \<open>a1\<close> and \<open>a2\<close> on top of it, and
  a second branch \<open>b1\<close>, \<open>b2\<close> from the genesis block. The node \<open>node\<close> holds the
  first branch canonical and knows \<open>b1\<close> as an orphan; the host chain \<open>host\<close> still
  names \<open>b1\<close> as its best digest, the host chain \<open>host_g0\<close> names the genesis block.
\<close>

definition g0 :: "byte list Header" where
  "g0 = \<lparr>Hash = 10, Height = 0, PrevHash = 0, MerkleRoot = 1, Raw = [0]\<rparr>"
definition a1 :: "byte list Header" where
  "a1 = \<lparr>Hash = 11, Height = 1, PrevHash = 10, MerkleRoot = 2, Raw = [1]\<rparr>"
definition a2 :: "byte list Header" where
  "a2 = \<lparr>Hash = 12, Height = 2, PrevHash = 11, MerkleRoot = 4, Raw = [3]\<rparr>"
definition b1 :: "byte list Header" where
  "b1 = \<lparr>Hash = 21, Height = 1, PrevHash = 10, MerkleRoot = 3, Raw = [2]\<rparr>"
definition b2 :: "byte list Header" where
  "b2 = \<lparr>Hash = 22, Height = 2, PrevHash = 21, MerkleRoot = 5, Raw = [4]\<rparr>"

definition node :: "unit btc_Handle" where
  "node = \<lparr>
     GetHeaderByHeight = (\<lambda>n s. if n = 0 then (Inr g0, s) else if n = 1 then (Inr a1, s)
                                 else if n = 2 then (Inr a2, s)
                                 else (Inl (Err ''no block''), s)),
     GetHeaderByDigest = (\<lambda>d s. if d = 10 then (Inr g0, s) else if d = 11 then (Inr a1, s)
                                 else if d = 12 then (Inr a2, s)
                                 else if d = 21 then (Inr b1, s) else (Inl (Err ''no block''), s)),
     GetBlockCount = (\<lambda>s. (Inr 2, s))\<rparr>"

definition host :: "'s chain_Handle" where
  "host = \<lparr>GetBestKnownDigest = (\<lambda>s. (Inr 21, s))\<rparr>"

definition host_g0 :: "'s chain_Handle" where
  "host_g0 = \<lparr>GetBestKnownDigest = (\<lambda>s. (Inr 10, s))\<rparr>"

text \<open>
  A node that reorganises while the puller runs. Its state tells whether the
  reorganisation has happened. Before, its chain is \<open>g0\<close>, \<open>a1\<close>; right after it has
  served \<open>a1\<close> it switches to the longer branch \<open>g0\<close>, \<open>b1\<close>, \<open>b2\<close>. Every header it
  serves for a height has that height.
\<close>

definition reorg_node :: "bool btc_Handle" where
  "reorg_node = \<lparr>
     GetHeaderByHeight = (\<lambda>n s. if n = 0 then (Inr g0, s)
                                 else if n = 1 then (if s then (Inr b1, s) else (Inr a1, True))
                                 else if n = 2 \<and> s then (Inr b2, s)
                                 else (Inl (Err ''no block''), s)),
     GetHeaderByDigest = (\<lambda>d s. if d = 10 then (Inr g0, s) else if d = 11 then (Inr a1, s)
                                 else if d = 21 then (Inr b1, s)
                                 else if d = 22 then (Inr b2, s)
                                 else (Inl (Err ''no block''), s)),
     GetBlockCount = (\<lambda>s. (Inr (if s then 2 else 1), s))\<rparr>"

text \<open>A node that cannot be reached.\<close>

definition down_node :: "unit btc_Handle" where
  "down_node = \<lparr>
     GetHeaderByHeight = (\<lambda>n s. (Inl (Err ''connection refused''), s)),
     GetHeaderByDigest = (\<lambda>d s. (Inl (Err ''connection refused''), s)),
     GetBlockCount = (\<lambda>s. (Inl (Err ''connection refused''), s))\<rparr>"

text \<open>
  Ticks: nothing happens (\<open>quiet\<close>); the context has been cancelled (\<open>cancelled\<close>);
  the caller has sent \<^verbatim>\<open>true\<close> on \<^verbatim>\<open>QuitChan()\<close> (\<open>quit_sent\<close>); the caller has received
  from \<^verbatim>\<open>ErrChan()\<close> (\<open>err_received\<close>).
\<close>

definition quiet :: tick where
  "quiet = \<lparr>ctx_done = False, timer_fired = False, pick = 0, others = (\<lambda>f. f)\<rparr>"

definition cancelled :: tick where
  "cancelled = \<lparr>ctx_done = True, timer_fired = False, pick = 0, others = (\<lambda>f. f)\<rparr>"

definition quit_sent :: tick where
  "quit_sent = \<lparr>ctx_done = False, timer_fired = False, pick = 0,
                 others = (\<lambda>f. case chan_send (quit f) True of
                                   None \<Rightarrow> f
                                 | Some c \<Rightarrow> f\<lparr>quit := c\<rparr>)\<rparr>"

definition err_received :: tick where
  "err_received = \<lparr>ctx_done = False, timer_fired = False, pick = 0,
                    others = (\<lambda>f. f\<lparr>errChan := chan_recv (errChan f)\<rparr>)\<rparr>"

text \<open>A queue that has nothing to give, and a host chain that rejects every batch.\<close>

definition no_headers :: "tick \<Rightarrow> Forwarder \<Rightarrow> byte list Header list \<times> Forwarder" where
  "no_headers t f = ([], f)"

definition push_fails ::
  "byte list Header list \<Rightarrow> Forwarder \<times> unit \<Rightarrow> error option \<times> Forwarder \<times> unit" where
  "push_fails hs fs = (Some (Err ''rejected''), fs)"

text \<open>A store with the header \<open>a1\<close> at address 0 and a zero header at address 1.\<close>

definition two_headers :: heap where
  "two_headers =
     \<lparr>objs = [\<lparr>Hash = 11, Height = 1, PrevHash = 10, MerkleRoot = 2, Raw = Slice 0 0 1\<rparr>,
              \<lparr>Hash = 0, Height = 0, PrevHash = 0, MerkleRoot = 0, Raw = SliceNil\<rparr>],
      arrays = [[1]]\<rparr>"

text \<open>A node that knows the height of its chain and fails to deliver any header, and a
  queue that gives the one header \<open>a1\<close>.\<close>

definition flaky_node :: "unit btc_Handle" where
  "flaky_node = \<lparr>
     GetHeaderByHeight = (\<lambda>n s. (Inl (Err ''timeout''), s)),
     GetHeaderByDigest = (\<lambda>d s. (Inl (Err ''timeout''), s)),
     GetBlockCount = (\<lambda>s. (Inr 5, s))\<rparr>"

definition one_header :: "tick \<Rightarrow> Forwarder \<Rightarrow> byte list Header list \<times> Forwarder" where
  "one_header t f = ([a1], f)"


section \<open>Header equality\<close>

lemma bytes_Compare_eq_0: "bytes_Compare xs ys = 0 \<longleftrightarrow> xs = ys"
  by (induction xs ys rule: bytes_Compare.induct) auto

text \<open>
  Claim C2, as far as the code goes. \<open>headersEqual\<close> holds exactly when all five fields
  agree, \<open>Raw\<close> byte for byte. \<open>Equals\<close> on two headers compares the four fields
  \<open>Hash\<close>, \<open>Height\<close>, \<open>PrevHash\<close> and \<open>MerkleRoot\<close> and never reads \<open>Raw\<close>.
\<close>

theorem header_equalities:
  "(headersEqual a b \<longleftrightarrow>
      Hash a = Hash b \<and> Height a = Height b \<and> PrevHash a = PrevHash b \<and>
      MerkleRoot a = MerkleRoot b \<and> Raw a = Raw b) \<and>
   Equals (Some a) (Some b) =
      Some (Hash a = Hash b \<and> Height a = Height b \<and> PrevHash a = PrevHash b \<and>
            MerkleRoot a = MerkleRoot b) \<and>
   Equals (Some a) (Some (a\<lparr>Raw := r\<rparr>)) = Some True"
  by (simp add: headersEqual_def Equals_def bytes_Compare_eq_0)

text \<open>
  Claim C2 as stated fails for \<open>Equals\<close>: two headers that differ in one byte of \<open>Raw\<close>
  and in nothing else are equal for \<open>Equals\<close> (and are not for \<open>headersEqual\<close>).
\<close>

theorem Equals_ignores_Raw:
  "Equals (Some \<lparr>Hash = 7, Height = 100, PrevHash = 6, MerkleRoot = 9, Raw = [1]\<rparr>)
          (Some \<lparr>Hash = 7, Height = 100, PrevHash = 6, MerkleRoot = 9, Raw = [2]\<rparr>) = Some True \<and>
   \<not> headersEqual \<lparr>Hash = 7, Height = 100, PrevHash = 6, MerkleRoot = 9, Raw = [1]\<rparr>
                   \<lparr>Hash = 7, Height = 100, PrevHash = 6, MerkleRoot = 9, Raw = [2]\<rparr>"
  by (simp add: Equals_def headersEqual_def)

text \<open>
  Claim C10. \<open>Equals\<close> answers false when \<open>other\<close> is nil, whatever the receiver is
  (any header, and also a nil receiver, which is not read before the test).
\<close>

theorem Equals_nil: "Equals h None = Some False"
  by (simp add: Equals_def)

lemma headersEqual_iff: "headersEqual a b \<longleftrightarrow> a = b"
  by (cases a, cases b) (simp add: headersEqual_def bytes_Compare_eq_0)

section \<open>Copying a header\<close>

lemma copy_bytes_full: "length dst = length src \<Longrightarrow> copy_bytes dst src = src"
  by (simp add: copy_bytes_def)

lemma copyHeaders_value: "copyHeaders dest src = src"
  by (simp add: copyHeaders_def copy_bytes_full)

text \<open>
  On the store, the equality of two pointers' headers is \<open>headersEqual\<close> of the headers
  they refer to.
\<close>

lemma headersEqual_heap_value:
  "header_at h p = Some a \<Longrightarrow> header_at h q = Some b \<Longrightarrow>
     headersEqual_heap h p q = Some (headersEqual a b)"
  by (auto simp: header_at_def headersEqual_heap_def headersEqual_def)

text \<open>
  Claim C9, for two different pointers. \<open>dest\<close> and \<open>src\<close> are valid pointers to
  different headers and \<open>src.Raw\<close> lies inside its array. Then \<open>copyHeaders\<close> does not
  panic; afterwards the two headers are equal for \<open>headersEqual\<close>; \<open>dest.Raw\<close> is the
  whole of an array that did not exist before, with the length and the bytes of
  \<open>src.Raw\<close>; the struct \<open>src\<close> and the bytes of its \<open>Raw\<close> are what they were, and so
  is every array that existed before.
\<close>

theorem copyHeaders_distinct:
  assumes "dest \<noteq> src" and "load h src = Some s" and "load h dest = Some d"
    and "slice_ok h (Raw s)"
  shows "\<exists>h' d'. copyHeaders_heap h dest src = Some h' \<and>
           headersEqual_heap h' dest src = Some True \<and>
           load h' dest = Some d' \<and>
           Raw d' = Slice (length (arrays h)) 0 (slice_len (Raw s)) \<and>
           bytes_of h' (Raw d') = bytes_of h (Raw s) \<and>
           load h' src = Some s \<and>
           bytes_of h' (Raw s) = bytes_of h (Raw s) \<and>
           take (length (arrays h)) (arrays h') = arrays h"
proof -
  from assms obtain i j where ij: "src = Some i" "dest = Some j" "i \<noteq> j"
    "i < length (objs h)" "j < length (objs h)" "objs h ! i = s"
    by (auto simp: load_def split: option.splits if_splits)
  show ?thesis
    using ij assms(4)
    by (cases "Raw s")
      (auto simp: copyHeaders_heap_def headersEqual_heap_def load_def store_def make_bytes_def
        Let_def nth_append bytes_Compare_eq_0)
qed

theorem copyHeaders_distinct_witness:
  "\<exists>h' d'. copyHeaders_heap
       \<lparr>objs = [\<lparr>Hash = 1, Height = 2, PrevHash = 3, MerkleRoot = 4, Raw = Slice 0 1 2\<rparr>,
                \<lparr>Hash = 0, Height = 0, PrevHash = 0, MerkleRoot = 0, Raw = SliceNil\<rparr>],
        arrays = [[1, 2, 3, 4]]\<rparr> (Some 1) (Some 0) = Some h' \<and>
     headersEqual_heap h' (Some 1) (Some 0) = Some True \<and>
     load h' (Some 1) = Some d' \<and>
     Raw d' = Slice 1 0 2 \<and>
     bytes_of h' (Raw d') = [2, 3] \<and>
     load h' (Some 0) =
       Some \<lparr>Hash = 1, Height = 2, PrevHash = 3, MerkleRoot = 4, Raw = Slice 0 1 2\<rparr> \<and>
     bytes_of h' (Slice 0 1 2) = [2, 3] \<and>
     take 1 (arrays h') = [[1, 2, 3, 4]]"
  using copyHeaders_distinct [of "Some 1" "Some 0"
      "\<lparr>objs = [\<lparr>Hash = 1, Height = 2, PrevHash = 3, MerkleRoot = 4, Raw = Slice 0 1 2\<rparr>,
               \<lparr>Hash = 0, Height = 0, PrevHash = 0, MerkleRoot = 0, Raw = SliceNil\<rparr>],
        arrays = [[1, 2, 3, 4]]\<rparr>"
      "\<lparr>Hash = 1, Height = 2, PrevHash = 3, MerkleRoot = 4, Raw = Slice 0 1 2\<rparr>"
      "\<lparr>Hash = 0, Height = 0, PrevHash = 0, MerkleRoot = 0, Raw = SliceNil\<rparr>"]
  by (simp add: load_def)

text \<open>
  Claim C9 as stated, for every pair of pointers, fails when \<open>dest\<close> and \<open>src\<close> are
  the same pointer: \<open>src.Raw\<close> is replaced by the new zeroed array before it is read, so
  the byte 1 of the header's \<open>Raw\<close> is lost and \<open>src\<close> has changed.
\<close>

theorem copyHeaders_aliased:
  "copyHeaders_heap
     \<lparr>objs = [\<lparr>Hash = 1, Height = 2, PrevHash = 3, MerkleRoot = 4, Raw = Slice 0 0 1\<rparr>],
      arrays = [[1]]\<rparr> (Some 0) (Some 0) =
   Some \<lparr>objs = [\<lparr>Hash = 1, Height = 2, PrevHash = 3, MerkleRoot = 4, Raw = Slice 1 0 1\<rparr>],
         arrays = [[1], [0]]\<rparr> \<and>
   header_at
     \<lparr>objs = [\<lparr>Hash = 1, Height = 2, PrevHash = 3, MerkleRoot = 4, Raw = Slice 0 0 1\<rparr>],
      arrays = [[1]]\<rparr> (Some 0) =
   Some \<lparr>Hash = 1, Height = 2, PrevHash = 3, MerkleRoot = 4, Raw = [1]\<rparr> \<and>
   header_at
     \<lparr>objs = [\<lparr>Hash = 1, Height = 2, PrevHash = 3, MerkleRoot = 4, Raw = Slice 1 0 1\<rparr>],
      arrays = [[1], [0]]\<rparr> (Some 0) =
   Some \<lparr>Hash = 1, Height = 2, PrevHash = 3, MerkleRoot = 4, Raw = [0]\<rparr>"
  by (simp add: copyHeaders_heap_def load_def store_def make_bytes_def header_at_def)

section \<open>Ancestor discovery\<close>

lemma loop_n_sound:
  "findBestBlock_loop_n n bc best better s = Some r \<Longrightarrow>
     findBestBlock_loop bc best better s = Some r"
proof (induction n arbitrary: best better s)
  case 0
  then show ?case
    by (subst findBestBlock_loop.simps) (simp split: if_splits)
next
  case (Suc n)
  then show ?case
    by (subst findBestBlock_loop.simps) (auto split: if_splits prod.splits sum.splits)
qed

lemma loop_imp_while:
  assumes "findBestBlock_loop bc0 best0 better0 s0 = Some r0"
  shows "map_option spec_survivor
       (while_option spec_differs (spec_step_back bc0) (Inr (best0, better0), s0)) = Some r0"
proof (rule findBestBlock_loop.raw_induct
    [where P = "\<lambda>bc best better s r. map_option spec_survivor
       (while_option spec_differs (spec_step_back bc) (Inr (best, better), s)) = Some r",
     OF _ assms])
  fix loop :: "'a btc_Handle \<Rightarrow> byte list Header \<Rightarrow> byte list Header \<Rightarrow> 'a \<Rightarrow>
     ((error + byte list Header) \<times> 'a) option"
  fix bc best better s r
  assume IH: "\<And>bc best better s r. loop bc best better s = Some r \<Longrightarrow>
     map_option spec_survivor
       (while_option spec_differs (spec_step_back bc) (Inr (best, better), s)) = Some r"
  assume body: "(if \<not> headersEqual best better then
        (case GetHeaderByDigest bc (PrevHash best) s of
           (Inl e, s1) \<Rightarrow> Some (Inl e, s1)
         | (Inr bestHeader', s1) \<Rightarrow>
             (case GetHeaderByHeight bc (Height bestHeader') s1 of
                (Inl e, s2) \<Rightarrow> Some (Inl e, s2)
              | (Inr betterOrSameHeader', s2) \<Rightarrow> loop bc bestHeader' betterOrSameHeader' s2))
      else Some (Inr best, s)) = Some r"
  show "map_option spec_survivor
       (while_option spec_differs (spec_step_back bc) (Inr (best, better), s)) = Some r"
  proof (cases "headersEqual best better")
    case True
    with body show ?thesis
      by (subst while_option_unfold) (simp add: spec_differs_def spec_survivor_def headersEqual_iff)
  next
    case False
    then have d: "spec_differs (Inr (best, better), s)"
      by (simp add: spec_differs_def headersEqual_iff)
    obtain x s1 where g1: "GetHeaderByDigest bc (PrevHash best) s = (x, s1)"
      by (cases "GetHeaderByDigest bc (PrevHash best) s")
    show ?thesis
    proof (cases x)
      case (Inl e)
      with False body g1 have r: "r = (Inl e, s1)" by simp
      have st: "spec_step_back bc (Inr (best, better), s) = (Inl e, s1)"
        using g1 Inl by (simp add: spec_step_back_def)
      show ?thesis
        using d st r
        by (subst while_option_unfold, simp, subst while_option_unfold)
           (simp add: spec_differs_def spec_survivor_def)
    next
      case (Inr b')
      obtain y s2 where g2: "GetHeaderByHeight bc (Height b') s1 = (y, s2)"
        by (cases "GetHeaderByHeight bc (Height b') s1")
      show ?thesis
      proof (cases y)
        case (Inl e)
        with False body g1 g2 Inr have r: "r = (Inl e, s2)" by simp
        have st: "spec_step_back bc (Inr (best, better), s) = (Inl e, s2)"
          using g1 g2 Inr Inl by (simp add: spec_step_back_def)
        show ?thesis
          using d st r
          by (subst while_option_unfold, simp, subst while_option_unfold)
             (simp add: spec_differs_def spec_survivor_def)
      next
        case (Inr c')
        with False body g1 g2 \<open>x = Inr b'\<close> have "loop bc b' c' s2 = Some r" by simp
        from IH [OF this] have ih: "map_option spec_survivor
           (while_option spec_differs (spec_step_back bc) (Inr (b', c'), s2)) = Some r" .
        have st: "spec_step_back bc (Inr (best, better), s) = (Inr (b', c'), s2)"
          using g1 g2 Inr \<open>x = Inr b'\<close> by (simp add: spec_step_back_def)
        show ?thesis
          using d st ih by (subst while_option_unfold) simp
      qed
    qed
  qed
qed

lemma while_imp_loop_aux:
  "while_option spec_differs (spec_step_back bc) (Inr (best, better), s) = Some t \<Longrightarrow>
   t = (spec_step_back bc ^^ k) (Inr (best, better), s) \<Longrightarrow>
   findBestBlock_loop bc best better s = Some (spec_survivor t)"
proof (induction k arbitrary: best better s)
  case 0
  from while_option_stop [OF 0(1)] 0(2) have "best = better"
    by (simp add: spec_differs_def)
  with 0(2) show ?case
    by (subst findBestBlock_loop.simps) (simp add: headersEqual_iff spec_survivor_def)
next
  case (Suc k)
  show ?case
  proof (cases "best = better")
    case True
    then have "\<not> spec_differs (Inr (best, better), s)" by (simp add: spec_differs_def)
    with Suc(2) have "t = (Inr (best, better), s)"
      by (subst (asm) while_option_unfold) simp
    with True show ?thesis
      by (subst findBestBlock_loop.simps) (simp add: headersEqual_iff spec_survivor_def)
  next
    case False
    then have d: "spec_differs (Inr (best, better), s)" by (simp add: spec_differs_def)
    with Suc(2) have w: "while_option spec_differs (spec_step_back bc)
        (spec_step_back bc (Inr (best, better), s)) = Some t"
      by (subst (asm) while_option_unfold) simp
    from Suc(3) have t: "t = (spec_step_back bc ^^ k) (spec_step_back bc (Inr (best, better), s))"
      by (simp add: funpow_swap1)
    obtain x s1 where g1: "GetHeaderByDigest bc (PrevHash best) s = (x, s1)"
      by (cases "GetHeaderByDigest bc (PrevHash best) s")
    show ?thesis
    proof (cases x)
      case (Inl e)
      then have st: "spec_step_back bc (Inr (best, better), s) = (Inl e, s1)"
        using g1 by (simp add: spec_step_back_def)
      with w have "t = (Inl e, s1)"
        by (subst (asm) while_option_unfold) (simp add: spec_differs_def)
      with False g1 Inl show ?thesis
        by (subst findBestBlock_loop.simps) (simp add: headersEqual_iff spec_survivor_def)
    next
      case (Inr b')
      obtain y s2 where g2: "GetHeaderByHeight bc (Height b') s1 = (y, s2)"
        by (cases "GetHeaderByHeight bc (Height b') s1")
      show ?thesis
      proof (cases y)
        case (Inl e)
        then have st: "spec_step_back bc (Inr (best, better), s) = (Inl e, s2)"
          using g1 g2 Inr by (simp add: spec_step_back_def)
        with w have "t = (Inl e, s2)"
          by (subst (asm) while_option_unfold) (simp add: spec_differs_def)
        with False g1 g2 Inl Inr show ?thesis
          by (subst findBestBlock_loop.simps) (simp add: headersEqual_iff spec_survivor_def)
      next
        case (Inr c')
        then have st: "spec_step_back bc (Inr (best, better), s) = (Inr (b', c'), s2)"
          using g1 g2 \<open>x = Inr b'\<close> by (simp add: spec_step_back_def)
        from Suc.IH [OF w [unfolded st] t [unfolded st]]
        have "findBestBlock_loop bc b' c' s2 = Some (spec_survivor t)" .
        with False g1 g2 Inr \<open>x = Inr b'\<close> show ?thesis
          by (subst findBestBlock_loop.simps) (simp add: headersEqual_iff)
      qed
    qed
  qed
qed

lemma loop_eq_while:
  "findBestBlock_loop bc best better s =
     map_option spec_survivor
       (while_option spec_differs (spec_step_back bc) (Inr (best, better), s))"
proof (cases "findBestBlock_loop bc best better s")
  case (Some r)
  show ?thesis
    by (simp only: Some loop_imp_while [OF Some])
next
  case None
  show ?thesis
  proof (cases "while_option spec_differs (spec_step_back bc) (Inr (best, better), s)")
    case None
    with \<open>findBestBlock_loop bc best better s = None\<close> show ?thesis by simp
  next
    case (Some t)
    from while_option_stop2 [OF Some] obtain k
      where "t = (spec_step_back bc ^^ k) (Inr (best, better), s)" by blast
    from while_imp_loop_aux [OF Some this] None show ?thesis by simp
  qed
qed

text \<open>
  Claim C3. \<open>findBestBlock\<close> is the ancestor discovery the spec describes: it resolves
  the host chain's best known digest to a candidate, fails with the node's error when the
  digest is unknown to it, steps back while the candidate differs from the canonical
  header at its height, and returns the surviving candidate; it returns in exactly the
  cases in which the described search ends, with the same result and the same calls.
\<close>

theorem findBestBlock_refines_spec:
  "findBestBlock hostChain btcChain s = spec_ancestor hostChain btcChain s"
  by (simp add: findBestBlock_def spec_ancestor_def loop_eq_while
      split: prod.splits sum.splits)


lemma loop_n_returns:
  assumes step: "\<And>h s h' s'. h \<in> K \<Longrightarrow> GetHeaderByDigest bc (PrevHash h) s = (Inr h', s') \<Longrightarrow>
                   h' \<in> K \<and> sint (Height h') < sint (Height h)"
    and nonneg: "\<And>h. h \<in> K \<Longrightarrow> 0 \<le> sint (Height h)"
  shows "best \<in> K \<Longrightarrow> sint (Height best) < int n \<Longrightarrow>
           findBestBlock_loop_n n bc best better s \<noteq> None"
proof (induction n arbitrary: best better s)
  case 0
  with nonneg [of best] show ?case by simp
next
  case (Suc n)
  show ?case
  proof (cases "headersEqual best better")
    case True
    then show ?thesis by simp
  next
    case False
    obtain x s1 where g1: "GetHeaderByDigest bc (PrevHash best) s = (x, s1)"
      by (cases "GetHeaderByDigest bc (PrevHash best) s")
    show ?thesis
    proof (cases x)
      case (Inl e)
      with False g1 show ?thesis by simp
    next
      case (Inr b')
      with step [OF Suc.prems(1)] g1 have b': "b' \<in> K" "sint (Height b') < sint (Height best)"
        by auto
      with Suc.prems(2) have lt: "sint (Height b') < int n" by simp
      obtain y s2 where g2: "GetHeaderByHeight bc (Height b') s1 = (y, s2)"
        by (cases "GetHeaderByHeight bc (Height b') s1")
      show ?thesis
      proof (cases y)
        case (Inl e)
        with False g1 g2 \<open>x = Inr b'\<close> show ?thesis by simp
      next
        case (Inr c')
        with False g1 g2 \<open>x = Inr b'\<close> Suc.IH [OF b'(1) lt, of c' s2] show ?thesis by simp
      qed
    qed
  qed
qed

text \<open>
  Claim C6. \<open>K\<close> is a set of headers (the blocks the node knows) that holds the
  candidate; every header fetched by the \<open>PrevHash\<close> of a header of \<open>K\<close> is in \<open>K\<close>
  again and is strictly lower; the heights in \<open>K\<close> are not negative. Then the loop
  returns, and enters its body at most \<open>candidate.Height + 1\<close> times.
\<close>

theorem findBestBlock_loop_terminates:
  assumes start: "candidate \<in> K"
    and step: "\<And>h s h' s'. h \<in> K \<Longrightarrow> GetHeaderByDigest btcChain (PrevHash h) s = (Inr h', s') \<Longrightarrow>
           h' \<in> K \<and> sint (Height h') < sint (Height h)"
    and nonneg: "\<And>h. h \<in> K \<Longrightarrow> 0 \<le> sint (Height h)"
  shows "\<exists>r. findBestBlock_loop_n (nat (sint (Height candidate)) + 1) btcChain candidate canonical s
              = Some r \<and>
             findBestBlock_loop btcChain candidate canonical s = Some r"
proof -
  from nonneg [OF start]
  have lt: "sint (Height candidate) < int (nat (sint (Height candidate)) + 1)"
    by simp
  have "findBestBlock_loop_n (nat (sint (Height candidate)) + 1) btcChain candidate canonical s
          \<noteq> None"
  proof (rule loop_n_returns [where K = K])
    show "\<And>h s h' s'. h \<in> K \<Longrightarrow> GetHeaderByDigest btcChain (PrevHash h) s = (Inr h', s') \<Longrightarrow>
           h' \<in> K \<and> sint (Height h') < sint (Height h)"
      by (rule step)
    show "\<And>h. h \<in> K \<Longrightarrow> 0 \<le> sint (Height h)"
      by (rule nonneg)
    show "candidate \<in> K" by (rule start)
    show "sint (Height candidate) < int (nat (sint (Height candidate)) + 1)" by (rule lt)
  qed
  then obtain r where
    r: "findBestBlock_loop_n (nat (sint (Height candidate)) + 1) btcChain candidate canonical s
          = Some r"
    by blast
  from r loop_n_sound [OF r] show ?thesis by blast
qed

theorem findBestBlock_loop_terminates_witness:
  "findBestBlock_loop_n (nat (sint (Height b1)) + 1) node b1 a1 () = Some (Inr g0, ()) \<and>
   findBestBlock_loop node b1 a1 () = Some (Inr g0, ())"
proof -
  have "\<exists>r. findBestBlock_loop_n (nat (sint (Height b1)) + 1) node b1 a1 () = Some r \<and>
            findBestBlock_loop node b1 a1 () = Some r"
  proof (rule findBestBlock_loop_terminates [where K = "{g0, a1, b1}"])
    show "b1 \<in> {g0, a1, b1}" by simp
    show "\<And>h s h' s'. h \<in> {g0, a1, b1} \<Longrightarrow>
        GetHeaderByDigest node (PrevHash h) s = (Inr h', s') \<Longrightarrow>
        h' \<in> {g0, a1, b1} \<and> sint (Height h') < sint (Height h)"
      by (auto simp: node_def g0_def a1_def b1_def)
    show "\<And>h. h \<in> {g0, a1, b1} \<Longrightarrow> 0 \<le> sint (Height h)"
      by (auto simp: g0_def a1_def b1_def)
  qed
  then obtain r where
    r: "findBestBlock_loop_n (nat (sint (Height b1)) + 1) node b1 a1 () = Some r"
       "findBestBlock_loop node b1 a1 () = Some r"
    by blast
  have run: "findBestBlock_loop_n (nat (sint (Height b1)) + 1) node b1 a1 () = Some (Inr g0, ())"
    by (simp add: node_def g0_def a1_def b1_def headersEqual_def)
  from r(1) run have "r = (Inr g0, ())"
    by (simp only: option.inject)
  with r(2) run show ?thesis
    by (simp only: simp_thms)
qed


section \<open>The select statement\<close>

lemma go_select_None: "go_select n cs = None \<longleftrightarrow> (\<forall>c. (c, True) \<notin> set cs)"
  by (force simp: go_select_def Let_def filter_empty_conv)

lemma go_select_Some: "go_select n cs = Some c \<Longrightarrow> (c, True) \<in> set cs"
proof -
  assume a: "go_select n cs = Some c"
  let ?r = "map fst (filter snd cs)"
  from a have ne: "?r \<noteq> []" and c: "c = ?r ! (n mod length ?r)"
    by (auto simp: go_select_def Let_def split: if_splits)
  from ne have "n mod length ?r < length ?r" by simp
  then have "c \<in> set ?r" unfolding c by (rule nth_mem)
  then show ?thesis by auto
qed

lemma top_select_cases:
  "go_select n [(Case_ctx_Done, a), (Case_quit, b)] = None \<and> \<not> a \<and> \<not> b \<or>
   go_select n [(Case_ctx_Done, a), (Case_quit, b)] = Some Case_ctx_Done \<and> a \<or>
   go_select n [(Case_ctx_Done, a), (Case_quit, b)] = Some Case_quit \<and> b"
proof (cases "go_select n [(Case_ctx_Done, a), (Case_quit, b)]")
  case None
  then show ?thesis by (auto simp: go_select_None)
next
  case (Some c)
  from go_select_Some [OF Some] Some show ?thesis by auto
qed

lemma sleep_select_cases:
  "go_select n [(Case_time_After, x), (Case_ctx_Done, a), (Case_quit, b)] = None \<and> \<not> x \<and> \<not> a \<and> \<not> b \<or>
   go_select n [(Case_time_After, x), (Case_ctx_Done, a), (Case_quit, b)] = Some Case_time_After \<and> x \<or>
   go_select n [(Case_time_After, x), (Case_ctx_Done, a), (Case_quit, b)] = Some Case_ctx_Done \<and> a \<or>
   go_select n [(Case_time_After, x), (Case_ctx_Done, a), (Case_quit, b)] = Some Case_quit \<and> b"
proof (cases "go_select n [(Case_time_After, x), (Case_ctx_Done, a), (Case_quit, b)]")
  case None
  then show ?thesis by (auto simp: go_select_None)
next
  case (Some c)
  from go_select_Some [OF Some] Some show ?thesis by auto
qed

lemma top_select_default:
  "\<not> a \<Longrightarrow> \<not> b \<Longrightarrow> go_select n [(Case_ctx_Done, a), (Case_quit, b)] = None"
  by (simp add: go_select_def)


section \<open>The steady state of the puller\<close>

lemma copyHeaders_heap_fresh:
  assumes "dest \<noteq> src" and "header_at h src = Some sv" and "header_at h dest = Some dv"
    and "\<And>v. load h src = Some v \<Longrightarrow> slice_ok h (Raw v)"
  shows "\<exists>h' d'. copyHeaders_heap h dest src = Some h' \<and>
           header_at h' dest = Some (copyHeaders dv sv) \<and>
           header_at h' src = Some sv \<and>
           load h' dest = Some d' \<and>
           Raw d' = Slice (length (arrays h)) 0 (length (Raw sv))"
proof -
  from assms(2) obtain s where s: "load h src = Some s"
    by (auto simp: header_at_def)
  from assms(3) obtain d where d: "load h dest = Some d"
    by (auto simp: header_at_def)
  from assms(1,2) s d assms(4) [OF s] show ?thesis
    by (cases "Raw s")
      (auto simp: copyHeaders_value header_at_def copyHeaders_heap_def load_def store_def
        make_bytes_def Let_def nth_append split: option.splits if_splits)
qed

text \<open>
  Claim C5. After a successful \<open>findBestBlock\<close> the loop starts with \<open>latestHeight\<close> the
  ancestor's height plus one and \<open>lastAdded\<close> the zero header. At the head of the loop,
  with no cancellation to see, a chain height of at least \<open>latestHeight\<close> and the header
  \<open>newHeader\<close> fetched at \<open>latestHeight\<close>: if \<open>newHeader\<close> differs from \<open>lastAdded\<close>
  (\<open>headersEqual\<close>) the puller goes to send it to the queue; if it is equal the puller is
  back at the head of the loop with \<open>latestHeight\<close> and \<open>lastAdded\<close> as they were and
  nothing sent. The send, once the queue has room, appends \<open>newHeader\<close> to the queue,
  sets \<open>lastAdded\<close> to the copy of \<open>newHeader\<close> (all its fields, the bytes of \<open>Raw\<close>
  included) and adds one to \<open>latestHeight\<close>. On the store, for the two different pointers
  the loop holds, that copy puts the header of \<open>newHeader\<close> at \<open>lastAdded\<close> with a
  \<open>Raw\<close> in an array of its own and leaves \<open>newHeader\<close> alone.
\<close>

theorem pullingLoop_steady_state:
  "(findBestBlock hostChain btcChain s = Some (Inr ancestor, s1) \<longrightarrow>
      pullingLoop_step hostChain btcChain t (f, s, Start) =
        ((f, s1, Loop (Height ancestor + 1) zero_Header), [])) \<and>
   (\<not> ctx_done t \<and> \<not> chan_ready (quit f) \<and>
    GetBlockCount btcChain s = (Inr chainHeight, s1) \<and>
    sint latestHeight \<le> sint chainHeight \<and>
    GetHeaderByHeight btcChain latestHeight s1 = (Inr newHeader, s2) \<longrightarrow>
      (\<not> headersEqual newHeader lastAdded \<longrightarrow>
         pullingLoop_step hostChain btcChain t (f, s, Loop latestHeight lastAdded) =
           ((f, s2, SendHeader newHeader latestHeight lastAdded), [])) \<and>
      (headersEqual newHeader lastAdded \<longrightarrow>
         pullingLoop_step hostChain btcChain t (f, s, Loop latestHeight lastAdded) =
           ((f, s2, Loop latestHeight lastAdded), []))) \<and>
   (length (buf (headersQueue f)) < cap (headersQueue f) \<longrightarrow>
      pullingLoop_step hostChain btcChain t (f, s, SendHeader newHeader latestHeight lastAdded) =
        ((f\<lparr>headersQueue := (headersQueue f)\<lparr>buf := buf (headersQueue f) @ [newHeader]\<rparr>\<rparr>, s,
          Loop (latestHeight + 1) (copyHeaders lastAdded newHeader)),
         [Enqueued newHeader])) \<and>
   copyHeaders lastAdded newHeader = newHeader \<and>
   (dest \<noteq> src \<and> header_at h src = Some newHeader \<and> header_at h dest = Some lastAdded \<and>
    (\<forall>v. load h src = Some v \<longrightarrow> slice_ok h (Raw v)) \<longrightarrow>
      (\<exists>h' d'. copyHeaders_heap h dest src = Some h' \<and>
         header_at h' dest = Some (copyHeaders lastAdded newHeader) \<and>
         header_at h' src = Some newHeader \<and>
         load h' dest = Some d' \<and>
         Raw d' = Slice (length (arrays h)) 0 (length (Raw newHeader))))"
proof -
  have heap: "dest \<noteq> src \<and> header_at h src = Some newHeader \<and>
      header_at h dest = Some lastAdded \<and>
      (\<forall>v. load h src = Some v \<longrightarrow> slice_ok h (Raw v)) \<longrightarrow>
      (\<exists>h' d'. copyHeaders_heap h dest src = Some h' \<and>
         header_at h' dest = Some (copyHeaders lastAdded newHeader) \<and>
         header_at h' src = Some newHeader \<and>
         load h' dest = Some d' \<and>
         Raw d' = Slice (length (arrays h)) 0 (length (Raw newHeader)))"
    using copyHeaders_heap_fresh [of dest src h newHeader lastAdded] by blast
  have steps: "(findBestBlock hostChain btcChain s = Some (Inr ancestor, s1) \<longrightarrow>
      pullingLoop_step hostChain btcChain t (f, s, Start) =
        ((f, s1, Loop (Height ancestor + 1) zero_Header), [])) \<and>
   (\<not> ctx_done t \<and> \<not> chan_ready (quit f) \<and>
    GetBlockCount btcChain s = (Inr chainHeight, s1) \<and>
    sint latestHeight \<le> sint chainHeight \<and>
    GetHeaderByHeight btcChain latestHeight s1 = (Inr newHeader, s2) \<longrightarrow>
      (\<not> headersEqual newHeader lastAdded \<longrightarrow>
         pullingLoop_step hostChain btcChain t (f, s, Loop latestHeight lastAdded) =
           ((f, s2, SendHeader newHeader latestHeight lastAdded), [])) \<and>
      (headersEqual newHeader lastAdded \<longrightarrow>
         pullingLoop_step hostChain btcChain t (f, s, Loop latestHeight lastAdded) =
           ((f, s2, Loop latestHeight lastAdded), []))) \<and>
   (length (buf (headersQueue f)) < cap (headersQueue f) \<longrightarrow>
      pullingLoop_step hostChain btcChain t (f, s, SendHeader newHeader latestHeight lastAdded) =
        ((f\<lparr>headersQueue := (headersQueue f)\<lparr>buf := buf (headersQueue f) @ [newHeader]\<rparr>\<rparr>, s,
          Loop (latestHeight + 1) (copyHeaders lastAdded newHeader)),
         [Enqueued newHeader]))"
    by (simp add: top_select_default chan_send_def)
  from steps heap copyHeaders_value [of lastAdded newHeader] show ?thesis
    by blast
qed

lemma findBestBlock_host_node: "findBestBlock host node () = Some (Inr g0, ())"
  by (simp add: findBestBlock_def host_def node_def g0_def a1_def b1_def headersEqual_def
      findBestBlock_loop.simps)

theorem pullingLoop_steady_state_witness:
  "pullingLoop_step host node quiet (RunForwarder, (), Start) =
     ((RunForwarder, (), Loop 1 zero_Header), []) \<and>
   pullingLoop_step host node quiet (RunForwarder, (), Loop 1 zero_Header) =
     ((RunForwarder, (), SendHeader a1 1 zero_Header), []) \<and>
   pullingLoop_step host node quiet (RunForwarder, (), Loop 1 a1) =
     ((RunForwarder, (), Loop 1 a1), []) \<and>
   pullingLoop_step host node quiet (RunForwarder, (), SendHeader a1 1 zero_Header) =
     ((RunForwarder\<lparr>headersQueue := \<lparr>buf = [a1], cap = 50\<rparr>\<rparr>, (), Loop 2 a1), [Enqueued a1]) \<and>
   (\<exists>h' d'. copyHeaders_heap two_headers (Some 1) (Some 0) = Some h' \<and>
      header_at h' (Some 1) = Some a1 \<and> header_at h' (Some 0) = Some a1 \<and>
      load h' (Some 1) = Some d' \<and> Raw d' = Slice 1 0 1)"
proof -
  have n: "GetBlockCount node () = (Inr 2, ())" "GetHeaderByHeight node 1 () = (Inr a1, ())"
    by (simp_all add: node_def)
  have q: "\<not> ctx_done quiet" "\<not> chan_ready (quit RunForwarder)"
    "length (buf (headersQueue RunForwarder)) < cap (headersQueue RunForwarder)"
    by (simp_all add: quiet_def RunForwarder_def make_chan_def chan_ready_def headersQueueSize_def)
  have d: "\<not> headersEqual a1 zero_Header" "headersEqual a1 a1"
    by (simp_all add: headersEqual_iff a1_def zero_Header_def)
  have hp: "Some (1::nat) \<noteq> Some 0" "header_at two_headers (Some 0) = Some a1"
    "header_at two_headers (Some 1) = Some zero_Header"
    "\<forall>v. load two_headers (Some 0) = Some v \<longrightarrow> slice_ok two_headers (Raw v)"
    by (simp_all add: header_at_def two_headers_def load_def a1_def zero_Header_def)
  have le: "sint (1::int64) \<le> sint (2::int64)" by simp
  have g: "Height g0 + 1 = 1" "(1::int64) + 1 = 2" "length (Raw a1) = 1" "length (arrays two_headers) = 1"
    by (simp_all add: g0_def a1_def two_headers_def)
  have qa: "(headersQueue RunForwarder)\<lparr>buf := buf (headersQueue RunForwarder) @ [a1]\<rparr>
      = \<lparr>buf = [a1], cap = 50\<rparr>"
    by (simp add: RunForwarder_def make_chan_def headersQueueSize_def)
  note A = pullingLoop_steady_state [where hostChain = host and btcChain = node and s = "()"
      and ancestor = g0 and ?s1.0 = "()" and ?s2.0 = "()" and t = quiet and f = RunForwarder
      and chainHeight = 2 and latestHeight = 1 and newHeader = a1 and lastAdded = zero_Header
      and dest = "Some 1" and src = "Some 0" and h = two_headers]
  note B = pullingLoop_steady_state [where hostChain = host and btcChain = node and s = "()"
      and ancestor = g0 and ?s1.0 = "()" and ?s2.0 = "()" and t = quiet and f = RunForwarder
      and chainHeight = 2 and latestHeight = 1 and newHeader = a1 and lastAdded = a1
      and dest = "Some 1" and src = "Some 0" and h = two_headers]
  from A B findBestBlock_host_node n q d hp g qa le copyHeaders_value [of zero_Header a1]
  show ?thesis
    by (simp only: simp_thms order_refl)
qed


section \<open>The headers the puller enqueues\<close>

lemma successively_nth:
  "successively P xs \<Longrightarrow> Suc i < length xs \<Longrightarrow> P (xs ! i) (xs ! Suc i)"
proof (induction xs arbitrary: i)
  case Nil
  then show ?case by simp
next
  case (Cons x xs)
  then show ?case
    by (cases i) (auto simp: successively_Cons hd_conv_nth)
qed

lemma pullingLoop_step_inv:
  assumes honest: "\<forall>n s h s'. GetHeaderByHeight bc n s = (Inr h, s') \<longrightarrow> Height h = n"
    and step: "pullingLoop_step hc bc t (f, s, c) = ((f', s', c'), ev)"
    and c: "c \<noteq> Start"
    and pending: "\<forall>nh lh la. c = SendHeader nh lh la \<longrightarrow>
                   (\<exists>sa sa'. GetHeaderByHeight bc lh sa = (Inr nh, sa'))"
  shows "c' \<noteq> Start \<and>
         (\<forall>nh lh la. c' = SendHeader nh lh la \<longrightarrow>
            (\<exists>sa sa'. GetHeaderByHeight bc lh sa = (Inr nh, sa'))) \<and>
         (enqueued ev = [] \<and> latestHeight_of c' \<in> {None, latestHeight_of c} \<or>
          (\<exists>nh. enqueued ev = [nh] \<and> latestHeight_of c = Some (Height nh) \<and>
                latestHeight_of c' = Some (Height nh + 1) \<and>
                (\<exists>sa sa'. GetHeaderByHeight bc (Height nh) sa = (Inr nh, sa'))))"
proof (cases c)
  case Start
  with c show ?thesis by simp
next
  case (Loop lh la)
  from top_select_cases [of "pick t" "ctx_done t" "chan_ready (quit f)"]
  show ?thesis
    using step Loop
    by (auto split: prod.splits sum.splits if_splits) blast
next
  case (SendHeader nh lh la)
  from pending SendHeader obtain sa sa' where g: "GetHeaderByHeight bc lh sa = (Inr nh, sa')"
    by blast
  from honest g have "Height nh = lh" by blast
  with step SendHeader g show ?thesis
    by (auto split: option.splits)
next
  case (Sleep lh la)
  from sleep_select_cases [of "pick t" "timer_fired t" "ctx_done t" "chan_ready (quit f)"]
  show ?thesis
    using step Sleep by auto
next
  case (SendErr e)
  with step show ?thesis by (auto split: option.splits)
next
  case Returned
  with step show ?thesis by auto
qed

lemma enqueued_append: "enqueued (xs @ ys) = enqueued xs @ enqueued ys"
  by (induction xs rule: enqueued.induct) auto

lemma pullingLoop_run_inv:
  assumes honest: "\<forall>n s h s'. GetHeaderByHeight bc n s = (Inr h, s') \<longrightarrow> Height h = n"
  shows "pullingLoop_run hc bc ts (f, s, c) = (cfg, evs) \<Longrightarrow> c \<noteq> Start \<Longrightarrow>
         \<forall>nh lh la. c = SendHeader nh lh la \<longrightarrow>
             (\<exists>sa sa'. GetHeaderByHeight bc lh sa = (Inr nh, sa')) \<Longrightarrow>
         (case enqueued evs of [] \<Rightarrow> True | h # _ \<Rightarrow> latestHeight_of c = Some (Height h)) \<and>
         successively (\<lambda>a b. Height b = Height a + 1) (enqueued evs) \<and>
         (\<forall>h \<in> set (enqueued evs). \<exists>sa sa'. GetHeaderByHeight bc (Height h) sa = (Inr h, sa'))"
proof (induction ts arbitrary: f s c cfg evs)
  case Nil
  then show ?case by simp
next
  case (Cons t ts)
  obtain f' s' c' ev where st: "pullingLoop_step hc bc t (others t f, s, c) = ((f', s', c'), ev)"
    by (metis prod.exhaust)
  obtain cfg2 ev2 where rn: "pullingLoop_run hc bc ts (f', s', c') = (cfg2, ev2)"
    by (metis prod.exhaust)
  from Cons.prems(1) st rn have evs: "evs = ev @ ev2" by simp
  from pullingLoop_step_inv [OF honest st Cons.prems(2) Cons.prems(3)]
  have c': "c' \<noteq> Start"
    and pend: "\<forall>nh lh la. c' = SendHeader nh lh la \<longrightarrow>
                 (\<exists>sa sa'. GetHeaderByHeight bc lh sa = (Inr nh, sa'))"
    and alt: "enqueued ev = [] \<and> latestHeight_of c' \<in> {None, latestHeight_of c} \<or>
          (\<exists>nh. enqueued ev = [nh] \<and> latestHeight_of c = Some (Height nh) \<and>
                latestHeight_of c' = Some (Height nh + 1) \<and>
                (\<exists>sa sa'. GetHeaderByHeight bc (Height nh) sa = (Inr nh, sa')))"
    by blast+
  from Cons.IH [OF rn c' pend]
  have ih1: "case enqueued ev2 of [] \<Rightarrow> True | h # _ \<Rightarrow> latestHeight_of c' = Some (Height h)"
    and ih2: "successively (\<lambda>a b. Height b = Height a + 1) (enqueued ev2)"
    and ih3: "\<forall>h \<in> set (enqueued ev2). \<exists>sa sa'. GetHeaderByHeight bc (Height h) sa = (Inr h, sa')"
    by blast+
  from alt show ?case
  proof
    assume a: "enqueued ev = [] \<and> latestHeight_of c' \<in> {None, latestHeight_of c}"
    with ih1 ih2 ih3 show ?thesis
      by (auto simp: evs enqueued_append split: list.splits)
  next
    assume "\<exists>nh. enqueued ev = [nh] \<and> latestHeight_of c = Some (Height nh) \<and>
                latestHeight_of c' = Some (Height nh + 1) \<and>
                (\<exists>sa sa'. GetHeaderByHeight bc (Height nh) sa = (Inr nh, sa'))"
    then obtain nh where b: "enqueued ev = [nh]" "latestHeight_of c = Some (Height nh)"
      "latestHeight_of c' = Some (Height nh + 1)"
      "\<exists>sa sa'. GetHeaderByHeight bc (Height nh) sa = (Inr nh, sa')"
      by blast
    with ih1 ih2 ih3 show ?thesis
      by (auto simp: evs enqueued_append successively_Cons split: list.splits)
  qed
qed

text \<open>
  Claim C1, as far as the code goes. The node answers \<open>GetHeaderByHeight n\<close> with a
  header of height \<open>n\<close> (what the interface promises) and \<open>findBestBlock\<close> has found the
  ancestor. Then, in every run of the puller, the first header sent to the queue has the
  ancestor's height plus one and each later one the height of the one before plus one.
  The puller never compares \<open>PrevHash\<close> with the hash of the header before: the
  headers sent are linked by \<open>PrevHash\<close> when every header the node serves at a height
  names the hash of every header it serves at the height below, that is, when the node
  does not reorganise while the puller runs.
\<close>

theorem enqueued_headers_consecutive:
  assumes honest: "\<And>n s h s'. GetHeaderByHeight btcChain n s = (Inr h, s') \<Longrightarrow> Height h = n"
    and start: "findBestBlock hostChain btcChain s = Some (Inr ancestor, s1)"
    and run: "pullingLoop_run hostChain btcChain ts (f, s, Start) = (cfg, evs)"
  shows "(enqueued evs \<noteq> [] \<longrightarrow> Height (hd (enqueued evs)) = Height ancestor + 1) \<and>
         (\<forall>i. Suc i < length (enqueued evs) \<longrightarrow>
            Height (enqueued evs ! Suc i) = Height (enqueued evs ! i) + 1) \<and>
         ((\<forall>n sa ha sa' sb hb sb'.
              GetHeaderByHeight btcChain n sa = (Inr ha, sa') \<and>
              GetHeaderByHeight btcChain (n + 1) sb = (Inr hb, sb') \<longrightarrow> PrevHash hb = Hash ha) \<longrightarrow>
          (\<forall>i. Suc i < length (enqueued evs) \<longrightarrow>
             PrevHash (enqueued evs ! Suc i) = Hash (enqueued evs ! i)))"
proof (cases ts)
  case Nil
  with run show ?thesis by simp
next
  case (Cons t ts')
  let ?c = "Loop (Height ancestor + 1) zero_Header"
  from run Cons start obtain cfg' where
    rn: "pullingLoop_run hostChain btcChain ts' (others t f, s1, ?c) = (cfg', evs)"
    by (auto split: prod.splits)
  from honest have honest': "\<forall>n s h s'. GetHeaderByHeight btcChain n s = (Inr h, s') \<longrightarrow> Height h = n"
    by blast
  from pullingLoop_run_inv [OF honest' rn]
  have first: "case enqueued evs of [] \<Rightarrow> True
                | h # _ \<Rightarrow> latestHeight_of ?c = Some (Height h)"
    and succ: "successively (\<lambda>a b. Height b = Height a + 1) (enqueued evs)"
    and served: "\<forall>h \<in> set (enqueued evs).
                   \<exists>sa sa'. GetHeaderByHeight btcChain (Height h) sa = (Inr h, sa')"
    by simp_all
  from first have 1: "enqueued evs \<noteq> [] \<longrightarrow> Height (hd (enqueued evs)) = Height ancestor + 1"
    by (cases "enqueued evs") auto
  have 2: "\<forall>i. Suc i < length (enqueued evs) \<longrightarrow>
            Height (enqueued evs ! Suc i) = Height (enqueued evs ! i) + 1"
    using successively_nth [OF succ] by blast
  have 3: "(\<forall>n sa ha sa' sb hb sb'.
              GetHeaderByHeight btcChain n sa = (Inr ha, sa') \<and>
              GetHeaderByHeight btcChain (n + 1) sb = (Inr hb, sb') \<longrightarrow> PrevHash hb = Hash ha) \<longrightarrow>
          (\<forall>i. Suc i < length (enqueued evs) \<longrightarrow>
             PrevHash (enqueued evs ! Suc i) = Hash (enqueued evs ! i))"
  proof (intro impI allI)
    fix i
    assume linked: "\<forall>n sa ha sa' sb hb sb'.
              GetHeaderByHeight btcChain n sa = (Inr ha, sa') \<and>
              GetHeaderByHeight btcChain (n + 1) sb = (Inr hb, sb') \<longrightarrow> PrevHash hb = Hash ha"
      and i: "Suc i < length (enqueued evs)"
    let ?a = "enqueued evs ! i" and ?b = "enqueued evs ! Suc i"
    from i have "?a \<in> set (enqueued evs)" "?b \<in> set (enqueued evs)" by simp_all
    with served obtain sa sa' sb sb' where
      a: "GetHeaderByHeight btcChain (Height ?a) sa = (Inr ?a, sa')" and
      b: "GetHeaderByHeight btcChain (Height ?b) sb = (Inr ?b, sb')"
      by blast
    from 2 i have "Height ?b = Height ?a + 1" by blast
    with a b linked show "PrevHash ?b = Hash ?a" by metis
  qed
  from 1 2 3 show ?thesis by blast
qed

theorem enqueued_headers_consecutive_witness:
  "enqueued (snd (pullingLoop_run host node [quiet, quiet, quiet, quiet, quiet, quiet]
                    (RunForwarder, (), Start))) = [a1, a2] \<and>
   Height a1 = Height g0 + 1 \<and> Height a2 = Height a1 + 1 \<and> PrevHash a2 = Hash a1"
proof -
  let ?ts = "[quiet, quiet, quiet, quiet, quiet, quiet]"
  obtain cfg evs where run: "pullingLoop_run host node ?ts (RunForwarder, (), Start) = (cfg, evs)"
    by (metis prod.exhaust)
  have ev: "pullingLoop_run host node ?ts (RunForwarder, (), Start) =
      ((RunForwarder\<lparr>headersQueue := \<lparr>buf = [a1, a2], cap = 50\<rparr>\<rparr>, (), Sleep 3 a2),
       [Enqueued a1, Enqueued a2])"
    by code_simp
  with run have evs: "enqueued evs = [a1, a2]" by simp
  have honest: "\<And>n s h s'. GetHeaderByHeight node n s = (Inr h, s') \<Longrightarrow> Height h = n"
    by (auto simp: node_def g0_def a1_def a2_def split: if_splits)
  have linked: "\<forall>n sa ha sa' sb hb sb'.
      GetHeaderByHeight node n sa = (Inr ha, sa') \<and>
      GetHeaderByHeight node (n + 1) sb = (Inr hb, sb') \<longrightarrow> PrevHash hb = Hash ha"
    by (auto simp: node_def g0_def a1_def a2_def split: if_splits)
  from enqueued_headers_consecutive [OF honest findBestBlock_host_node run] linked
  have "Height (hd (enqueued evs)) = Height g0 + 1"
    and "Height (enqueued evs ! Suc 0) = Height (enqueued evs ! 0) + 1"
    and "PrevHash (enqueued evs ! Suc 0) = Hash (enqueued evs ! 0)"
    by (simp_all add: evs)
  with run evs show ?thesis by simp
qed

text \<open>
  Claim C1 as stated fails when the node reorganises between two fetches: the puller
  sends \<open>a1\<close> of the old branch and then \<open>b2\<close> of the new one, whose \<open>PrevHash\<close> is
  the hash of \<open>b1\<close>, not of \<open>a1\<close>.
\<close>

theorem enqueued_headers_unlinked:
  "enqueued (snd (pullingLoop_run host_g0 reorg_node [quiet, quiet, quiet, quiet, quiet]
                    (RunForwarder, False, Start))) = [a1, b2] \<and>
   PrevHash b2 \<noteq> Hash a1"
proof -
  have "pullingLoop_run host_g0 reorg_node [quiet, quiet, quiet, quiet, quiet]
          (RunForwarder, False, Start) =
        ((RunForwarder\<lparr>headersQueue := \<lparr>buf = [a1, b2], cap = 50\<rparr>\<rparr>, True, Loop 3 b2),
         [Enqueued a1, Enqueued b2])"
    by code_simp
  then show ?thesis by (simp add: a1_def b2_def)
qed


section \<open>Reporting a fatal error\<close>

text \<open>
  Claim C4, as far as the code goes. Each failure (of \<open>findBestBlock\<close>, of
  \<open>GetBlockCount\<close>, of \<open>GetHeaderByHeight\<close>, of \<open>pushHeadersToHostChain\<close>) takes its
  loop to the send of the wrapped error on the error channel, which \<^verbatim>\<open>RunForwarder\<close> makes
  with capacity 1. The send is an ordinary, blocking one: with the buffer empty the
  error is buffered and the loop returns; with an error already buffered the sender
  waits, with its error, and nothing is dropped.
\<close>

theorem errors_sent_blocking:
  "(findBestBlock hostChain btcChain s = Some (Inl err, s1) \<longrightarrow>
      pullingLoop_step hostChain btcChain t (f, s, Start) =
        ((f, s1, SendErr (Errorf
            ''failure while trying to find best block for pulling loop: [%v]'' [] err)), [])) \<and>
   (\<not> ctx_done t \<and> \<not> chan_ready (quit f) \<and> GetBlockCount btcChain s = (Inl err, s1) \<longrightarrow>
      pullingLoop_step hostChain btcChain t (f, s, Loop latestHeight lastAdded) =
        ((f, s1, SendErr (Errorf ''could not get block count [%v]'' [] err)), [])) \<and>
   (\<not> ctx_done t \<and> \<not> chan_ready (quit f) \<and>
    GetBlockCount btcChain s = (Inr chainHeight, s1) \<and> sint latestHeight \<le> sint chainHeight \<and>
    GetHeaderByHeight btcChain latestHeight s1 = (Inl err, s2) \<longrightarrow>
      pullingLoop_step hostChain btcChain t (f, s, Loop latestHeight lastAdded) =
        ((f, s2, SendErr (Errorf ''could not get header by height at %d: [%v]''
                            [latestHeight] err)), [])) \<and>
   (\<not> ctx_done t \<and> \<not> chan_ready (quit f) \<and> pull t f = (headers, f1) \<and> headers \<noteq> [] \<and>
    push headers (f1, s) = (Some err, f2, s2) \<longrightarrow>
      pushingLoop_step pull push t (f, s, PushLoop) =
        ((f2, s2, PushSendErr (Errorf ''could not push headers: [%v]'' [] err)),
         [Pushed headers])) \<and>
   cap (errChan RunForwarder) = 1 \<and>
   (cap (errChan f) = 1 \<and> buf (errChan f) = [] \<longrightarrow>
      pullingLoop_step hostChain btcChain t (f, s, SendErr err) =
        ((f\<lparr>errChan := \<lparr>buf = [err], cap = 1\<rparr>\<rparr>, s, Returned), [Reported err]) \<and>
      pushingLoop_step pull push t (f, s, PushSendErr err) =
        ((f\<lparr>errChan := \<lparr>buf = [err], cap = 1\<rparr>\<rparr>, s, PushReturned), [Reported err])) \<and>
   (cap (errChan f) = 1 \<and> buf (errChan f) \<noteq> [] \<longrightarrow>
      pullingLoop_step hostChain btcChain t (f, s, SendErr err) = ((f, s, SendErr err), []) \<and>
      pushingLoop_step pull push t (f, s, PushSendErr err) = ((f, s, PushSendErr err), []))"
proof -
  have send_ok: "cap (errChan f) = 1 \<and> buf (errChan f) = [] \<longrightarrow>
      chan_send (errChan f) err = Some \<lparr>buf = [err], cap = 1\<rparr>"
    by (cases "errChan f") (simp add: chan_send_def)
  have send_blocked: "cap (errChan f) = 1 \<and> buf (errChan f) \<noteq> [] \<longrightarrow>
      chan_send (errChan f) err = None"
    by (cases "buf (errChan f)") (simp_all add: chan_send_def)
  from send_ok send_blocked show ?thesis
    by (simp add: top_select_default RunForwarder_def make_chan_def)
qed

theorem errors_sent_blocking_witness:
  "pullingLoop_step host down_node quiet (RunForwarder, (), Start) =
     ((RunForwarder, (), SendErr (Errorf
         ''failure while trying to find best block for pulling loop: [%v]'' []
         (Err ''connection refused''))), []) \<and>
   pullingLoop_step host down_node quiet (RunForwarder, (), Loop 1 zero_Header) =
     ((RunForwarder, (), SendErr (Errorf ''could not get block count [%v]'' []
         (Err ''connection refused''))), []) \<and>
   pullingLoop_step host flaky_node quiet (RunForwarder, (), Loop 1 zero_Header) =
     ((RunForwarder, (), SendErr (Errorf ''could not get header by height at %d: [%v]'' [1]
         (Err ''timeout''))), []) \<and>
   pushingLoop_step one_header push_fails quiet (RunForwarder, (), PushLoop) =
     ((RunForwarder, (), PushSendErr (Errorf ''could not push headers: [%v]'' []
         (Err ''rejected''))), [Pushed [a1]]) \<and>
   pullingLoop_step host down_node quiet (RunForwarder, (), SendErr (Err ''e'')) =
     ((RunForwarder\<lparr>errChan := \<lparr>buf = [Err ''e''], cap = 1\<rparr>\<rparr>, (), Returned),
      [Reported (Err ''e'')]) \<and>
   pushingLoop_step one_header push_fails quiet
     (RunForwarder\<lparr>errChan := \<lparr>buf = [Err ''first''], cap = 1\<rparr>\<rparr>, (), PushSendErr (Err ''e'')) =
     ((RunForwarder\<lparr>errChan := \<lparr>buf = [Err ''first''], cap = 1\<rparr>\<rparr>, (), PushSendErr (Err ''e'')),
      [])"
proof -
  have fb: "findBestBlock host down_node () = Some (Inl (Err ''connection refused''), ())"
    by (simp add: findBestBlock_def host_def down_node_def)
  have q: "\<not> ctx_done quiet" "\<not> chan_ready (quit RunForwarder)"
    "cap (errChan RunForwarder) = 1" "buf (errChan RunForwarder) = []"
    by (simp_all add: quiet_def RunForwarder_def make_chan_def chan_ready_def)
  have bc: "GetBlockCount down_node () = (Inl (Err ''connection refused''), ())"
    by (simp add: down_node_def)
  have fl: "GetBlockCount flaky_node () = (Inr 5, ())" "sint (1::int64) \<le> sint (5::int64)"
    "GetHeaderByHeight flaky_node 1 () = (Inl (Err ''timeout''), ())"
    by (simp_all add: flaky_node_def)
  have pp: "one_header quiet RunForwarder = ([a1], RunForwarder)" "[a1] \<noteq> []"
    "push_fails [a1] (RunForwarder, ()) = (Some (Err ''rejected''), RunForwarder, ())"
    by (simp_all add: one_header_def push_fails_def)
  note A = errors_sent_blocking [where hostChain = host and btcChain = down_node and s = "()"
      and ?s1.0 = "()" and t = quiet and f = RunForwarder and err = "Err ''connection refused''"
      and latestHeight = 1 and lastAdded = zero_Header]
  note B = errors_sent_blocking [where hostChain = host and btcChain = flaky_node and s = "()"
      and ?s1.0 = "()" and ?s2.0 = "()" and t = quiet and f = RunForwarder
      and err = "Err ''timeout''" and chainHeight = 5
      and latestHeight = 1 and lastAdded = zero_Header]
  note C = errors_sent_blocking [where s = "()" and ?s2.0 = "()" and t = quiet
      and f = RunForwarder and ?f1.0 = RunForwarder and ?f2.0 = RunForwarder
      and pull = one_header and push = push_fails and headers = "[a1]"
      and err = "Err ''rejected''"]
  note D = errors_sent_blocking [where hostChain = host and btcChain = down_node and s = "()"
      and t = quiet and f = RunForwarder and err = "Err ''e''"]
  note E = errors_sent_blocking [where s = "()" and t = quiet
      and pull = one_header and push = push_fails
      and f = "RunForwarder\<lparr>errChan := \<lparr>buf = [Err ''first''], cap = 1\<rparr>\<rparr>"
      and err = "Err ''e''"]
  from A fb q bc have 1: "pullingLoop_step host down_node quiet (RunForwarder, (), Start) =
     ((RunForwarder, (), SendErr (Errorf
         ''failure while trying to find best block for pulling loop: [%v]'' []
         (Err ''connection refused''))), [])"
    and 2: "pullingLoop_step host down_node quiet (RunForwarder, (), Loop 1 zero_Header) =
     ((RunForwarder, (), SendErr (Errorf ''could not get block count [%v]'' []
         (Err ''connection refused''))), [])"
    by blast+
  from B q fl have 3: "pullingLoop_step host flaky_node quiet (RunForwarder, (), Loop 1 zero_Header) =
     ((RunForwarder, (), SendErr (Errorf ''could not get header by height at %d: [%v]'' [1]
         (Err ''timeout''))), [])"
    by blast
  from C q pp have 4: "pushingLoop_step one_header push_fails quiet (RunForwarder, (), PushLoop) =
     ((RunForwarder, (), PushSendErr (Errorf ''could not push headers: [%v]'' []
         (Err ''rejected''))), [Pushed [a1]])"
    by blast
  from D q have 5: "pullingLoop_step host down_node quiet (RunForwarder, (), SendErr (Err ''e'')) =
     ((RunForwarder\<lparr>errChan := \<lparr>buf = [Err ''e''], cap = 1\<rparr>\<rparr>, (), Returned),
      [Reported (Err ''e'')])"
    by blast
  from E have 6: "pushingLoop_step one_header push_fails quiet
     (RunForwarder\<lparr>errChan := \<lparr>buf = [Err ''first''], cap = 1\<rparr>\<rparr>, (), PushSendErr (Err ''e'')) =
     ((RunForwarder\<lparr>errChan := \<lparr>buf = [Err ''first''], cap = 1\<rparr>\<rparr>, (), PushSendErr (Err ''e'')),
      [])"
    by simp
  from 1 2 3 4 5 6 show ?thesis by blast
qed

text \<open>
  Claim C4 as stated fails: with the pusher's error in the buffer, the puller's error is
  not dropped and the puller does not go on to return; it is blocked in its send (after
  three steps as after one), and when the caller has received the first error the
  second one is delivered.
\<close>

theorem second_error_blocks:
  "pullingLoop_run host down_node [quiet, quiet, quiet]
     (RunForwarder\<lparr>errChan :=
        \<lparr>buf = [Errorf ''could not push headers: [%v]'' [] (Err ''rejected'')], cap = 1\<rparr>\<rparr>,
      (), Loop 1 zero_Header) =
   ((RunForwarder\<lparr>errChan :=
        \<lparr>buf = [Errorf ''could not push headers: [%v]'' [] (Err ''rejected'')], cap = 1\<rparr>\<rparr>,
     (), SendErr (Errorf ''could not get block count [%v]'' [] (Err ''connection refused''))),
    []) \<and>
   pullingLoop_run host down_node [quiet, quiet, quiet, err_received]
     (RunForwarder\<lparr>errChan :=
        \<lparr>buf = [Errorf ''could not push headers: [%v]'' [] (Err ''rejected'')], cap = 1\<rparr>\<rparr>,
      (), Loop 1 zero_Header) =
   ((RunForwarder\<lparr>errChan :=
        \<lparr>buf = [Errorf ''could not get block count [%v]'' [] (Err ''connection refused'')],
         cap = 1\<rparr>\<rparr>,
     (), Returned),
    [Reported (Errorf ''could not get block count [%v]'' [] (Err ''connection refused''))])"
  by code_simp


section \<open>When the loops return\<close>

lemma pullingLoop_returns_only:
  assumes "pullingLoop_step hc bc t (f, s, c) = ((f', s', Returned), evs)" and "c \<noteq> Returned"
  shows "(\<exists>lh la. c = Loop lh la) \<and> (ctx_done t \<or> chan_ready (quit f)) \<or>
         (\<exists>e. c = SendErr e \<and> evs = [Reported e])"
proof (cases c)
  case (Loop lh la)
  from top_select_cases [of "pick t" "ctx_done t" "chan_ready (quit f)"] assms Loop
  show ?thesis
    by (auto split: prod.splits sum.splits if_splits)
next
  case (Sleep lh la)
  from sleep_select_cases [of "pick t" "timer_fired t" "ctx_done t" "chan_ready (quit f)"]
    assms Sleep
  show ?thesis by auto
qed (use assms in \<open>auto split: option.splits prod.splits sum.splits\<close>)

lemma pushingLoop_returns_only:
  assumes "pushingLoop_step pull push t (f, s, d) = ((f', s', PushReturned), evs)"
    and "d \<noteq> PushReturned"
  shows "d = PushLoop \<and> (ctx_done t \<or> chan_ready (quit f)) \<or>
         (\<exists>e. d = PushSendErr e \<and> evs = [Reported e])"
proof (cases d)
  case PushLoop
  from top_select_cases [of "pick t" "ctx_done t" "chan_ready (quit f)"] assms PushLoop
  show ?thesis
    by (auto split: prod.splits option.splits if_splits)
next
  case PushSleep
  from sleep_select_cases [of "pick t" "timer_fired t" "ctx_done t" "chan_ready (quit f)"]
    assms PushSleep
  show ?thesis by auto
qed (use assms in \<open>auto split: option.splits\<close>)

lemma loops_return_at_head:
  assumes "ctx_done t \<or> chan_ready (quit f)"
  shows "snd (snd (fst (pullingLoop_step hc bc t (f, s, Loop lh la)))) = Returned \<and>
         snd (snd (fst (pushingLoop_step pull push t (f, s, PushLoop)))) = PushReturned"
  using top_select_cases [of "pick t" "ctx_done t" "chan_ready (quit f)"] assms
  by auto

lemma pullingLoop_sleep_stays:
  "snd (snd (fst (pullingLoop_step hc bc t (f, s, Sleep lh la)))) \<in> {Sleep lh la, Loop lh la}"
  using sleep_select_cases [of "pick t" "timer_fired t" "ctx_done t" "chan_ready (quit f)"]
  by auto

text \<open>
  Claim C7, as far as the code goes. A step of either loop ends in the return only from
  the head of the loop, when the context is done or the quit channel has a value, or from
  the send of a fatal error; at the head of the loop either of the two makes the loop
  return; the send of an error returns as soon as the error channel has room. Beyond the
  tip of the chain the puller goes to sleep and from the sleep back to the head of the
  loop, and the pusher with an empty batch is back at the head of its loop: neither
  returns. A puller that waits to send to a full queue stays there, whatever the context
  says.
\<close>

theorem loops_return_on_cancel_or_error_only:
  "(pullingLoop_step hostChain btcChain t (f, s, c) = ((f', s', Returned), evs) \<and>
    c \<noteq> Returned \<longrightarrow>
      (\<exists>lh la. c = Loop lh la) \<and> (ctx_done t \<or> chan_ready (quit f)) \<or>
      (\<exists>e. c = SendErr e \<and> evs = [Reported e])) \<and>
   (pushingLoop_step pull push t (f, s, d) = ((f', s', PushReturned), evs) \<and>
    d \<noteq> PushReturned \<longrightarrow>
      d = PushLoop \<and> (ctx_done t \<or> chan_ready (quit f)) \<or>
      (\<exists>e. d = PushSendErr e \<and> evs = [Reported e])) \<and>
   (ctx_done t \<or> chan_ready (quit f) \<longrightarrow>
      snd (snd (fst (pullingLoop_step hostChain btcChain t (f, s, Loop latestHeight lastAdded))))
        = Returned \<and>
      snd (snd (fst (pushingLoop_step pull push t (f, s, PushLoop)))) = PushReturned) \<and>
   (length (buf (errChan f)) < cap (errChan f) \<longrightarrow>
      snd (snd (fst (pullingLoop_step hostChain btcChain t (f, s, SendErr err)))) = Returned \<and>
      snd (snd (fst (pushingLoop_step pull push t (f, s, PushSendErr err)))) = PushReturned) \<and>
   (\<not> ctx_done t \<and> \<not> chan_ready (quit f) \<and>
    GetBlockCount btcChain s = (Inr chainHeight, s1) \<and>
    \<not> sint latestHeight \<le> sint chainHeight \<longrightarrow>
      pullingLoop_step hostChain btcChain t (f, s, Loop latestHeight lastAdded) =
        ((f, s1, Sleep latestHeight lastAdded), [])) \<and>
   snd (snd (fst (pullingLoop_step hostChain btcChain t (f, s, Sleep latestHeight lastAdded))))
      \<in> {Sleep latestHeight lastAdded, Loop latestHeight lastAdded} \<and>
   (\<not> ctx_done t \<and> \<not> chan_ready (quit f) \<and> pull t f = ([], f1) \<longrightarrow>
      pushingLoop_step pull push t (f, s, PushLoop) = ((f1, s, PushLoop), [])) \<and>
   (\<not> length (buf (headersQueue f)) < cap (headersQueue f) \<longrightarrow>
      pullingLoop_step hostChain btcChain t (f, s, SendHeader newHeader latestHeight lastAdded) =
        ((f, s, SendHeader newHeader latestHeight lastAdded), []))"
proof -
  have full: "\<not> length (buf (headersQueue f)) < cap (headersQueue f) \<longrightarrow>
      pullingLoop_step hostChain btcChain t (f, s, SendHeader newHeader latestHeight lastAdded) =
        ((f, s, SendHeader newHeader latestHeight lastAdded), [])"
    by (simp add: chan_send_def)
  have tip: "\<not> ctx_done t \<and> \<not> chan_ready (quit f) \<and>
    GetBlockCount btcChain s = (Inr chainHeight, s1) \<and>
    \<not> sint latestHeight \<le> sint chainHeight \<longrightarrow>
      pullingLoop_step hostChain btcChain t (f, s, Loop latestHeight lastAdded) =
        ((f, s1, Sleep latestHeight lastAdded), [])"
    by (simp add: top_select_default)
  have empty: "\<not> ctx_done t \<and> \<not> chan_ready (quit f) \<and> pull t f = ([], f1) \<longrightarrow>
      pushingLoop_step pull push t (f, s, PushLoop) = ((f1, s, PushLoop), [])"
    by (simp add: top_select_default)
  have sent: "length (buf (errChan f)) < cap (errChan f) \<longrightarrow>
      snd (snd (fst (pullingLoop_step hostChain btcChain t (f, s, SendErr err)))) = Returned \<and>
      snd (snd (fst (pushingLoop_step pull push t (f, s, PushSendErr err)))) = PushReturned"
    by (simp add: chan_send_def)
  from pullingLoop_returns_only [of hostChain btcChain t f s c f' s' evs]
    pushingLoop_returns_only [of pull push t f s d f' s' evs]
    loops_return_at_head [of t f hostChain btcChain s latestHeight lastAdded pull push]
    pullingLoop_sleep_stays [of hostChain btcChain t f s latestHeight lastAdded]
    tip empty sent full
  show ?thesis by blast
qed

theorem loops_return_on_cancel_or_error_only_witness:
  "(ctx_done cancelled \<or> chan_ready (quit RunForwarder)) \<and>
   snd (snd (fst (pullingLoop_step host node cancelled (RunForwarder, (), Loop 3 a2)))) = Returned \<and>
   snd (snd (fst (pushingLoop_step no_headers push_fails cancelled (RunForwarder, (), PushLoop))))
     = PushReturned \<and>
   snd (snd (fst (pullingLoop_step host node quiet (RunForwarder, (), SendErr (Err ''e''))))) = Returned \<and>
   pullingLoop_step host node quiet (RunForwarder, (), Loop 3 a2) =
     ((RunForwarder, (), Sleep 3 a2), []) \<and>
   pushingLoop_step no_headers push_fails quiet (RunForwarder, (), PushLoop) =
     ((RunForwarder, (), PushLoop), []) \<and>
   pullingLoop_step host node cancelled
     (RunForwarder\<lparr>headersQueue := \<lparr>buf = replicate 50 a1, cap = 50\<rparr>\<rparr>, (), SendHeader a2 2 a1) =
     ((RunForwarder\<lparr>headersQueue := \<lparr>buf = replicate 50 a1, cap = 50\<rparr>\<rparr>, (), SendHeader a2 2 a1),
      [])"
proof -
  have st: "pullingLoop_step host node cancelled (RunForwarder, (), Loop 3 a2) =
      ((RunForwarder, (), Returned), [])"
    by code_simp
  have c: "ctx_done cancelled" "\<not> ctx_done quiet" "\<not> chan_ready (quit RunForwarder)"
    "length (buf (errChan RunForwarder)) < cap (errChan RunForwarder)"
    by (simp_all add: cancelled_def quiet_def RunForwarder_def make_chan_def chan_ready_def)
  have n: "GetBlockCount node () = (Inr 2, ())" "\<not> sint (3::int64) \<le> sint (2::int64)"
    "no_headers quiet RunForwarder = ([], RunForwarder)"
    by (simp_all add: node_def no_headers_def)
  have fq: "\<not> length (buf (headersQueue
              (RunForwarder\<lparr>headersQueue := \<lparr>buf = replicate 50 a1, cap = 50\<rparr>\<rparr>)))
            < cap (headersQueue (RunForwarder\<lparr>headersQueue := \<lparr>buf = replicate 50 a1, cap = 50\<rparr>\<rparr>))"
    by simp
  note A = loops_return_on_cancel_or_error_only [where hostChain = host and btcChain = node
      and t = cancelled and f = RunForwarder and s = "()" and c = "Loop 3 a2"
      and f' = RunForwarder and s' = "()" and evs = "[]" and latestHeight = 3 and lastAdded = a2
      and pull = no_headers and push = push_fails]
  note B = loops_return_on_cancel_or_error_only [where hostChain = host and btcChain = node
      and t = quiet and f = RunForwarder and s = "()" and ?s1.0 = "()" and ?f1.0 = RunForwarder
      and chainHeight = 2 and latestHeight = 3 and lastAdded = a2 and err = "Err ''e''"
      and pull = no_headers and push = push_fails]
  note C = loops_return_on_cancel_or_error_only [where hostChain = host and btcChain = node
      and t = cancelled and s = "()"
      and f = "RunForwarder\<lparr>headersQueue := \<lparr>buf = replicate 50 a1, cap = 50\<rparr>\<rparr>"
      and newHeader = a2 and latestHeight = 2 and lastAdded = a1]
  from A st have 1: "ctx_done cancelled \<or> chan_ready (quit RunForwarder)"
    by auto
  from A c have 2:
    "snd (snd (fst (pullingLoop_step host node cancelled (RunForwarder, (), Loop 3 a2)))) = Returned"
    "snd (snd (fst (pushingLoop_step no_headers push_fails cancelled (RunForwarder, (), PushLoop))))
       = PushReturned"
    by blast+
  from B c n have 3:
    "snd (snd (fst (pullingLoop_step host node quiet (RunForwarder, (), SendErr (Err ''e''))))) = Returned"
    "pullingLoop_step host node quiet (RunForwarder, (), Loop 3 a2) =
       ((RunForwarder, (), Sleep 3 a2), [])"
    "pushingLoop_step no_headers push_fails quiet (RunForwarder, (), PushLoop) =
       ((RunForwarder, (), PushLoop), [])"
    by blast+
  from C fq have 4: "pullingLoop_step host node cancelled
     (RunForwarder\<lparr>headersQueue := \<lparr>buf = replicate 50 a1, cap = 50\<rparr>\<rparr>, (), SendHeader a2 2 a1) =
     ((RunForwarder\<lparr>headersQueue := \<lparr>buf = replicate 50 a1, cap = 50\<rparr>\<rparr>, (), SendHeader a2 2 a1),
      [])"
    by blast
  from 1 2 3 4 show ?thesis by blast
qed

text \<open>
  Claim C7 as stated fails in the direction from the cancellation to the return. A value
  sent on the quit channel while a loop sleeps is taken by the \<^verbatim>\<open>select\<close> of the sleep,
  and the loop goes on (the puller back to sleep, the pusher to its next batch) with the
  quit channel empty again. A puller blocked in its send to the full queue stays blocked
  when the context is cancelled.
\<close>

theorem cancelled_but_not_returned:
  "pullingLoop_run host node [quiet, quit_sent, quiet, quiet] (RunForwarder, (), Loop 3 a2) =
     ((RunForwarder, (), Sleep 3 a2), []) \<and>
   pushingLoop_run no_headers push_fails [quiet, quit_sent, quiet] (RunForwarder, (), PushSleep) =
     ((RunForwarder, (), PushLoop), []) \<and>
   pullingLoop_run host node [cancelled, cancelled, cancelled]
     (RunForwarder\<lparr>headersQueue := \<lparr>buf = replicate 50 a1, cap = 50\<rparr>\<rparr>, (), SendHeader a2 2 a1) =
     ((RunForwarder\<lparr>headersQueue := \<lparr>buf = replicate 50 a1, cap = 50\<rparr>\<rparr>, (), SendHeader a2 2 a1),
      [])"
  by code_simp


section \<open>An empty batch\<close>

text \<open>
  Claim C8. In an iteration of the pushing loop that reaches the batch assembly and gets
  no header from it, the step ends at the head of the loop again, not in the sleep; its
  result is the same for every \<open>pushHeadersToHostChain\<close>, the host chain is as it
  was and no call of the submission is recorded.
\<close>

theorem pushingLoop_empty_batch:
  assumes "\<not> ctx_done t" and "\<not> chan_ready (quit f)" and "pull t f = ([], f1)"
  shows "pushingLoop_step pull push t (f, s, PushLoop) = ((f1, s, PushLoop), [])"
  using assms by (simp add: top_select_default)

theorem pushingLoop_empty_batch_witness:
  "pushingLoop_step no_headers push_fails quiet (RunForwarder, (), PushLoop) =
     ((RunForwarder, (), PushLoop), [])"
  using pushingLoop_empty_batch [of quiet RunForwarder no_headers RunForwarder push_fails "()"]
  by (simp add: quiet_def RunForwarder_def make_chan_def chan_ready_def no_headers_def)


end
